theory Spec2Isabelle
  imports Main "HOL-Library.AList" "HOL-Library.Char_ord" "HOL-Library.List_Lexorder"
begin

section \<open>Byte strings\<close>

text \<open>Go strings are byte sequences; \<^typ>\<open>string\<close> is a list of 8-bit characters.
  The helpers below are the functions of package \<open>strings\<close> that the client and the
  parts of \<open>net/url\<close> it calls rely on, for one-byte separators.\<close>

definition HasPrefix :: "string \<Rightarrow> string \<Rightarrow> bool" where
  "HasPrefix s p = (take (length p) s = p)"

definition HasSuffix :: "string \<Rightarrow> string \<Rightarrow> bool" where
  "HasSuffix s p = (length p \<le> length s \<and> drop (length s - length p) s = p)"

text \<open>\<open>strings.Cut(s, sep)\<close>: the text before and after the first \<open>sep\<close>, and whether
  \<open>sep\<close> occurs; without it the whole of \<open>s\<close> comes first.\<close>

definition Cut :: "string \<Rightarrow> char \<Rightarrow> string \<times> string \<times> bool" where
  "Cut s c = (takeWhile (\<lambda>x. x \<noteq> c) s, drop 1 (dropWhile (\<lambda>x. x \<noteq> c) s), c \<in> set s)"

text \<open>\<open>s[:strings.LastIndex(s, sep)+1]\<close>: everything up to and including the last
  \<open>sep\<close>, empty when there is none.\<close>

definition upto_last :: "string \<Rightarrow> char \<Rightarrow> string" where
  "upto_last s c = rev (dropWhile (\<lambda>x. x \<noteq> c) (rev s))"

definition TrimRight :: "string \<Rightarrow> char \<Rightarrow> string" where
  "TrimRight s c = rev (dropWhile (\<lambda>x. x = c) (rev s))"

text \<open>The pieces of \<open>s\<close> between occurrences of \<open>c\<close>, as repeated \<open>strings.Cut\<close> yields
  them; there is always at least one piece.\<close>

fun pieces :: "char \<Rightarrow> string \<Rightarrow> string list" where
  "pieces c [] = [[]]"
| "pieces c (x # xs) =
     (if x = c then [] # pieces c xs
      else (case pieces c xs of p # ps \<Rightarrow> (x # p) # ps | [] \<Rightarrow> [[x]]))"

definition byte :: "char \<Rightarrow> nat" where
  "byte c = of_char c"

definition is_lower :: "char \<Rightarrow> bool" where
  "is_lower c = (97 \<le> byte c \<and> byte c \<le> 122)"

definition is_upper :: "char \<Rightarrow> bool" where
  "is_upper c = (65 \<le> byte c \<and> byte c \<le> 90)"

definition is_digit :: "char \<Rightarrow> bool" where
  "is_digit c = (48 \<le> byte c \<and> byte c \<le> 57)"

definition to_lower :: "char \<Rightarrow> char" where
  "to_lower c =
     (case map_of (zip ''ABCDEFGHIJKLMNOPQRSTUVWXYZ'' ''abcdefghijklmnopqrstuvwxyz'') c of
        Some d \<Rightarrow> d | None \<Rightarrow> c)"

definition to_upper :: "char \<Rightarrow> char" where
  "to_upper c =
     (case map_of (zip ''abcdefghijklmnopqrstuvwxyz'' ''ABCDEFGHIJKLMNOPQRSTUVWXYZ'') c of
        Some d \<Rightarrow> d | None \<Rightarrow> c)"

definition ToLower :: "string \<Rightarrow> string" where
  "ToLower s = map to_lower s"


section \<open>Errors\<close>

text \<open>Go's \<open>error\<close> values. \<open>Error\<close>, \<open>EscapeError\<close>, \<open>InvalidHostError\<close>, \<open>URLError\<close> and
  \<open>Errorf\<close> are the standard library's (\<open>errors.New\<close>, \<open>net/url\<close>, \<open>fmt.Errorf\<close>).
  \<open>errors_New\<close>, \<open>errors_Wrap\<close> (also used for \<open>Wrapf\<close>, with the formatted message) and
  \<open>NewHTTPError\<close> are \<open>New\<close>, \<open>Wrap\<close> and \<open>NewHTTPError\<close> of the repository's \<open>pkg/errors\<close>,
  which the client calls; they are kept as free constructors, so nothing is assumed about
  them beyond what they were built from. \<open>Unmodelled\<close> marks inputs of \<open>url.Parse\<close> that
  the model of the parser below does not cover.\<close>

type_synonym header = "string \<rightharpoonup> string list"

record response =
  StatusCode :: int
  Status :: string
  resp_Header :: header
  resp_Body :: "string option"

datatype error =
    Error string
  | EscapeError string
  | InvalidHostError string
  | URLError string string error
  | Errorf string "error option"
  | Unmodelled
  | errors_New string
  | errors_Wrap error string
  | NewHTTPError "response option" "error option" string

section \<open>Package net/url\<close>

record URL =
  Scheme :: string
  Opaque :: string
  User :: "string option"
  Host :: string
  Path :: string
  RawPath :: string
  OmitHost :: bool
  ForceQuery :: bool
  RawQuery :: string
  Fragment :: string
  RawFragment :: string

text \<open>The zero value \<open>url.URL{}\<close>.\<close>

definition URL_zero :: URL where
  "URL_zero = \<lparr>Scheme = [], Opaque = [], User = None, Host = [], Path = [], RawPath = [],
     OmitHost = False, ForceQuery = False, RawQuery = [], Fragment = [], RawFragment = []\<rparr>"

definition IsAbs :: "URL \<Rightarrow> bool" where
  "IsAbs u = (Scheme u \<noteq> [])"

datatype encoding = encodePath | encodePathSegment | encodeHost | encodeZone
  | encodeUserPassword | encodeQueryComponent | encodeFragment

definition shouldEscape :: "char \<Rightarrow> encoding \<Rightarrow> bool" where
  "shouldEscape c mode =
     (if is_lower c \<or> is_upper c \<or> is_digit c then False
      else if (mode = encodeHost \<or> mode = encodeZone) \<and> c \<in> set ''!$&'()*+,;=:[]<>\"'' then False
      else if c \<in> set ''-_.~'' then False
      else if c \<in> set ''$&+,/:;=?@'' \<and> mode = encodePath then c = CHR ''?''
      else if c \<in> set ''$&+,/:;=?@'' \<and> mode = encodePathSegment then c \<in> set ''/;,?''
      else if c \<in> set ''$&+,/:;=?@'' \<and> mode = encodeUserPassword then c \<in> set ''@/?:''
      else if c \<in> set ''$&+,/:;=?@'' \<and> mode = encodeQueryComponent then True
      else if c \<in> set ''$&+,/:;=?@'' \<and> mode = encodeFragment then False
      else if mode = encodeFragment \<and> c \<in> set ''!()*'' then False
      else True)"

definition upperhex :: "nat \<Rightarrow> char" where
  "upperhex n = ''0123456789ABCDEF'' ! n"

definition ishex :: "char \<Rightarrow> bool" where
  "ishex c = (is_digit c \<or> (97 \<le> byte c \<and> byte c \<le> 102) \<or> (65 \<le> byte c \<and> byte c \<le> 70))"

definition unhex :: "char \<Rightarrow> nat" where
  "unhex c =
     (if is_digit c then byte c - 48
      else if 97 \<le> byte c \<and> byte c \<le> 102 then byte c - 97 + 10
      else if 65 \<le> byte c \<and> byte c \<le> 70 then byte c - 65 + 10
      else 0)"

definition escape_byte :: "encoding \<Rightarrow> char \<Rightarrow> string" where
  "escape_byte mode c =
     (if shouldEscape c mode then
        (if c = CHR '' '' \<and> mode = encodeQueryComponent then ''+''
         else [CHR ''%'', upperhex (byte c div 16), upperhex (byte c mod 16)])
      else [c])"

definition escape :: "string \<Rightarrow> encoding \<Rightarrow> string" where
  "escape s mode = concat (map (escape_byte mode) s)"

text \<open>\<open>unescape\<close> first checks every escape and then decodes; the two passes are one
  recursion here, which meets the same first malformed escape. The zone mode (bracketed IPv6
  hosts) is not modelled.\<close>

fun unescape :: "string \<Rightarrow> encoding \<Rightarrow> error + string" where
  "unescape [] mode = Inr []"
| "unescape (c # cs) mode =
     (if c = CHR ''%'' then
        (case cs of
           x # y # rest \<Rightarrow>
             if \<not> ishex x \<or> \<not> ishex y then Inl (EscapeError (take 3 (c # cs)))
             else if mode = encodeHost \<and> unhex x < 8 \<and> [c, x, y] \<noteq> ''%25''
               then Inl (EscapeError [c, x, y])
             else (case unescape rest mode of
                     Inl e \<Rightarrow> Inl e
                   | Inr r \<Rightarrow> Inr (char_of (unhex x * 16 + unhex y) # r))
         | _ \<Rightarrow> Inl (EscapeError (take 3 (c # cs))))
      else if mode = encodeHost \<and> byte c < 128 \<and> shouldEscape c encodeHost
        then Inl (InvalidHostError [c])
      else (case unescape cs mode of
              Inl e \<Rightarrow> Inl e
            | Inr r \<Rightarrow>
                Inr ((if c = CHR ''+'' \<and> mode = encodeQueryComponent then CHR '' '' else c) # r)))"

definition QueryEscape :: "string \<Rightarrow> string" where
  "QueryEscape s = escape s encodeQueryComponent"

definition QueryUnescape :: "string \<Rightarrow> error + string" where
  "QueryUnescape s = unescape s encodeQueryComponent"

text \<open>\<open>validEncoded\<close>, \<open>setPath\<close>, \<open>EscapedPath\<close>, \<open>setFragment\<close> and \<open>EscapedFragment\<close>.\<close>

definition validEncoded :: "string \<Rightarrow> encoding \<Rightarrow> bool" where
  "validEncoded s mode =
     list_all (\<lambda>c. c \<in> set ''!$&'()*+,;=:@[]%'' \<or> \<not> shouldEscape c mode) s"

definition setPath :: "URL \<Rightarrow> string \<Rightarrow> error + URL" where
  "setPath u p =
     (case unescape p encodePath of
        Inl e \<Rightarrow> Inl e
      | Inr path \<Rightarrow>
          Inr (u\<lparr>Path := path, RawPath := (if p = escape path encodePath then [] else p)\<rparr>))"

definition EscapedPath :: "URL \<Rightarrow> string" where
  "EscapedPath u =
     (if RawPath u \<noteq> [] \<and> validEncoded (RawPath u) encodePath
         \<and> (case unescape (RawPath u) encodePath of Inl e \<Rightarrow> False | Inr p \<Rightarrow> p = Path u)
      then RawPath u
      else if Path u = ''*'' then ''*''
      else escape (Path u) encodePath)"

definition setFragment :: "URL \<Rightarrow> string \<Rightarrow> error + URL" where
  "setFragment u f =
     (case unescape f encodeFragment of
        Inl e \<Rightarrow> Inl e
      | Inr frag \<Rightarrow>
          Inr (u\<lparr>Fragment := frag,
                 RawFragment := (if f = escape frag encodeFragment then [] else f)\<rparr>))"

definition EscapedFragment :: "URL \<Rightarrow> string" where
  "EscapedFragment u =
     (if RawFragment u \<noteq> [] \<and> validEncoded (RawFragment u) encodeFragment
         \<and> (case unescape (RawFragment u) encodeFragment of
                Inl e \<Rightarrow> False | Inr f \<Rightarrow> f = Fragment u)
      then RawFragment u
      else escape (Fragment u) encodeFragment)"

text \<open>\<open>resolvePath\<close> applies RFC 3986 section 5.2 to a base path and a reference path:
  it picks the merged path, then walks its \<open>/\<close>-separated elements, dropping \<open>.\<close> and
  backing up over \<open>..\<close>. \<open>resolve_elem\<close> is the body of that loop on the pair of the
  output written so far and the flag \<open>first\<close>.\<close>

definition before_last :: "string \<Rightarrow> char \<Rightarrow> string" where
  "before_last s c = rev (drop 1 (dropWhile (\<lambda>x. x \<noteq> c) (rev s)))"

definition resolve_elem :: "string \<times> bool \<Rightarrow> string \<Rightarrow> string \<times> bool" where
  "resolve_elem st elem =
     (case st of (dst, first) \<Rightarrow>
        if elem = ''.'' then (dst, False)
        else if elem = ''..'' then
          (let str = drop 1 dst
           in if CHR ''/'' \<notin> set str then (''/'', True)
              else (''/'' @ before_last str (CHR ''/''), first))
        else ((if first then dst else dst @ ''/'') @ elem, False))"

definition resolvePath :: "string \<Rightarrow> string \<Rightarrow> string" where
  "resolvePath base ref =
     (let full = (if ref = [] then base
                  else if hd ref \<noteq> CHR ''/'' then upto_last base (CHR ''/'') @ ref
                  else ref)
      in if full = [] then []
         else
           (let elems = pieces (CHR ''/'') full;
                dst = fst (foldl resolve_elem (''/'', True) elems);
                r = (if last elems = ''.'' \<or> last elems = ''..'' then dst @ ''/'' else dst)
            in if length r > 1 \<and> r ! 1 = CHR ''/'' then drop 1 r else r))"

text \<open>\<open>ResolveReference\<close> ignores the error of \<open>setPath\<close>; the path then stays the
  reference's.\<close>

definition setPath_ignore :: "URL \<Rightarrow> string \<Rightarrow> URL" where
  "setPath_ignore u p = (case setPath u p of Inl e \<Rightarrow> u | Inr u' \<Rightarrow> u')"

definition ResolveReference :: "URL \<Rightarrow> URL \<Rightarrow> URL" where
  "ResolveReference u ref =
     (let url = (if Scheme ref = [] then ref\<lparr>Scheme := Scheme u\<rparr> else ref)
      in if Scheme ref \<noteq> [] \<or> Host ref \<noteq> [] \<or> User ref \<noteq> None
           then setPath_ignore url (resolvePath (EscapedPath ref) [])
         else if Opaque ref \<noteq> []
           then url\<lparr>User := None, Host := [], Path := []\<rparr>
         else
           (let url1 = (if Path ref = [] \<and> \<not> ForceQuery ref \<and> RawQuery ref = []
                        then (if Fragment ref = []
                              then url\<lparr>RawQuery := RawQuery u, Fragment := Fragment u,
                                        RawFragment := RawFragment u\<rparr>
                              else url\<lparr>RawQuery := RawQuery u\<rparr>)
                        else url)
            in if Path ref = [] \<and> Opaque u \<noteq> []
                 then url1\<lparr>Opaque := Opaque u, User := None, Host := [], Path := []\<rparr>
               else setPath_ignore (url1\<lparr>Host := Host u, User := User u\<rparr>)
                      (resolvePath (EscapedPath u) (EscapedPath ref))))"

text \<open>\<open>(*URL).String\<close>. The user information is kept in its printed form.\<close>

definition URL_String :: "URL \<Rightarrow> string" where
  "URL_String u =
     (let s1 = (if Scheme u \<noteq> [] then Scheme u @ '':'' else []);
          s2 = (if Opaque u \<noteq> [] then s1 @ Opaque u
                else
                  (let a = s1 @
                         (if Scheme u \<noteq> [] \<or> Host u \<noteq> [] \<or> User u \<noteq> None then
                            (if OmitHost u \<and> Host u = [] \<and> User u = None then []
                             else (if Host u \<noteq> [] \<or> Path u \<noteq> [] \<or> User u \<noteq> None
                                   then ''//'' else [])
                                  @ (case User u of Some ui \<Rightarrow> ui @ ''@'' | None \<Rightarrow> [])
                                  @ (if Host u \<noteq> [] then escape (Host u) encodeHost else []))
                          else []);
                       path = EscapedPath u;
                       b = a @ (if path \<noteq> [] \<and> hd path \<noteq> CHR ''/'' \<and> Host u \<noteq> []
                                then ''/'' else []);
                       c = b @ (if b = [] \<and> CHR '':'' \<in> set (fst (Cut path (CHR ''/'')))
                                then ''./'' else [])
                   in c @ path));
          s3 = s2 @ (if ForceQuery u \<or> RawQuery u \<noteq> [] then ''?'' @ RawQuery u else [])
      in s3 @ (if Fragment u \<noteq> [] then ''#'' @ EscapedFragment u else []))"

subsection \<open>Query values\<close>

text \<open>\<open>url.Values\<close> is \<open>map[string][]string\<close>, modelled as an association list. Lookups go
  through \<^const>\<open>map_of\<close>; a map built by the program has distinct keys.\<close>

type_synonym Values = "(string \<times> string list) list"

definition Values_Add :: "Values \<Rightarrow> string \<Rightarrow> string \<Rightarrow> Values" where
  "Values_Add q k v =
     (case map_of q k of
        None \<Rightarrow> q @ [(k, [v])]
      | Some vs \<Rightarrow> map (\<lambda>(k', vs'). if k' = k then (k', vs' @ [v]) else (k', vs')) q)"

fun join_amp :: "string list \<Rightarrow> string" where
  "join_amp [] = []"
| "join_amp [x] = x"
| "join_amp (x # y # ys) = x @ ''&'' @ join_amp (y # ys)"

text \<open>\<open>Values.Encode\<close>: keys sorted bytewise, the values of one key in their order.\<close>

definition Values_Encode :: "Values \<Rightarrow> string" where
  "Values_Encode q =
     join_amp (concat (map (\<lambda>k. map (\<lambda>v. QueryEscape k @ ''='' @ QueryEscape v)
                                   (case map_of q k of None \<Rightarrow> [] | Some vs \<Rightarrow> vs))
                           (sort (remdups (map fst q)))))"

text \<open>\<open>parseQuery\<close>, whose error \<open>(*URL).Query\<close> discards: a piece with a semicolon, an empty
  piece and a piece whose key or value does not unescape are skipped.\<close>

definition parseQuery_piece :: "Values \<Rightarrow> string \<Rightarrow> Values" where
  "parseQuery_piece m piece =
     (if CHR '';'' \<in> set piece \<or> piece = [] then m
      else (case Cut piece (CHR ''='') of (key, val, _) \<Rightarrow>
              (case QueryUnescape key of
                 Inl e \<Rightarrow> m
               | Inr k \<Rightarrow> (case QueryUnescape val of
                             Inl e \<Rightarrow> m
                           | Inr v \<Rightarrow> Values_Add m k v))))"

definition URL_Query :: "URL \<Rightarrow> Values" where
  "URL_Query u = foldl parseQuery_piece [] (pieces (CHR ''&'') (RawQuery u))"

subsection \<open>Parsing\<close>

text \<open>\<open>url.Parse\<close>, for the URLs the examples of this development use. User information
  and bracketed (IPv6) hosts are outside the model and yield \<^const>\<open>Unmodelled\<close>. The
  client's functions below take the parser as a parameter, so their theorems hold for the
  real parser whatever it does there; \<open>url_Parse\<close> serves to run the client on concrete
  inputs.\<close>

definition stringContainsCTLByte :: "string \<Rightarrow> bool" where
  "stringContainsCTLByte s = list_ex (\<lambda>c. byte c < 32 \<or> byte c = 127) s"

fun getScheme_from :: "nat \<Rightarrow> string \<Rightarrow> string \<Rightarrow> error + (string \<times> string)" where
  "getScheme_from i rawURL [] = Inr ([], rawURL)"
| "getScheme_from i rawURL (c # cs) =
     (if is_lower c \<or> is_upper c then getScheme_from (Suc i) rawURL cs
      else if is_digit c \<or> c \<in> set ''+-.'' then
        (if i = 0 then Inr ([], rawURL) else getScheme_from (Suc i) rawURL cs)
      else if c = CHR '':'' then
        (if i = 0 then Inl (Error ''missing protocol scheme'')
         else Inr (take i rawURL, drop (Suc i) rawURL))
      else Inr ([], rawURL))"

definition getScheme :: "string \<Rightarrow> error + (string \<times> string)" where
  "getScheme rawURL = getScheme_from 0 rawURL rawURL"

definition validOptionalPort :: "string \<Rightarrow> bool" where
  "validOptionalPort port =
     (port = [] \<or> (hd port = CHR '':'' \<and> list_all is_digit (tl port)))"

definition parseHost :: "string \<Rightarrow> error + string" where
  "parseHost host =
     (if HasPrefix host ''['' then Inl Unmodelled
      else if CHR '':'' \<in> set host
              \<and> \<not> validOptionalPort (drop (length (upto_last host (CHR '':'')) - 1) host)
        then Inl (Error (''invalid port '' @ drop (length (upto_last host (CHR '':'')) - 1) host
                         @ '' after host''))
      else unescape host encodeHost)"

definition parseAuthority :: "string \<Rightarrow> error + (string option \<times> string)" where
  "parseAuthority authority =
     (if CHR ''@'' \<in> set authority then Inl Unmodelled
      else (case parseHost authority of Inl e \<Rightarrow> Inl e | Inr host \<Rightarrow> Inr (None, host)))"

definition parse :: "string \<Rightarrow> error + URL" where
  "parse rawURL =
     (if stringContainsCTLByte rawURL
        then Inl (Error ''net/url: invalid control character in URL'')
      else if rawURL = ''*'' then Inr (URL_zero\<lparr>Path := ''*''\<rparr>)
      else
        (case getScheme rawURL of
           Inl e \<Rightarrow> Inl e
         | Inr (scheme, rest0) \<Rightarrow>
             (let url0 = URL_zero\<lparr>Scheme := ToLower scheme\<rparr>;
                  force = (HasSuffix rest0 ''?'' \<and> count_list rest0 (CHR ''?'') = 1);
                  rest = (if force then butlast rest0 else fst (Cut rest0 (CHR ''?'')));
                  url = (if force then url0\<lparr>ForceQuery := True\<rparr>
                         else url0\<lparr>RawQuery := fst (snd (Cut rest0 (CHR ''?'')))\<rparr>)
              in if \<not> HasPrefix rest ''/'' \<and> Scheme url \<noteq> []
                   then Inr (url\<lparr>Opaque := rest\<rparr>)
                 else if \<not> HasPrefix rest ''/'' \<and> CHR '':'' \<in> set (fst (Cut rest (CHR ''/'')))
                   then Inl (Error ''first path segment in URL cannot contain colon'')
                 else if (Scheme url \<noteq> [] \<or> \<not> HasPrefix rest ''///'') \<and> HasPrefix rest ''//''
                   then
                     (let authority = takeWhile (\<lambda>x. x \<noteq> CHR ''/'') (drop 2 rest);
                          rest' = dropWhile (\<lambda>x. x \<noteq> CHR ''/'') (drop 2 rest)
                      in case parseAuthority authority of
                           Inl e \<Rightarrow> Inl e
                         | Inr (user, host) \<Rightarrow> setPath (url\<lparr>User := user, Host := host\<rparr>) rest')
                 else setPath (if Scheme url \<noteq> [] \<and> HasPrefix rest ''/''
                               then url\<lparr>OmitHost := True\<rparr> else url) rest)))"

definition url_Parse :: "string \<Rightarrow> error + URL" where
  "url_Parse rawURL =
     (case Cut rawURL (CHR ''#'') of (u, frag, _) \<Rightarrow>
        (case parse u of
           Inl e \<Rightarrow> Inl (URLError ''parse'' u e)
         | Inr url \<Rightarrow>
             if frag = [] then Inr url
             else (case setFragment url frag of
                     Inl e \<Rightarrow> Inl (URLError ''parse'' rawURL e)
                   | Inr url' \<Rightarrow> Inr url')))"

section \<open>Package net/http\<close>

subsection \<open>Headers\<close>

text \<open>\<open>textproto.CanonicalMIMEHeaderKey\<close>: a key made of token bytes only gets its first
  letter and every letter after a hyphen in upper case and all others in lower case; any
  other key is returned as it is.\<close>

definition validHeaderFieldByte :: "char \<Rightarrow> bool" where
  "validHeaderFieldByte c =
     (is_lower c \<or> is_upper c \<or> is_digit c \<or> c \<in> set ''!#$%&'*+-.^_`|~'')"

fun canonical_from :: "bool \<Rightarrow> string \<Rightarrow> string" where
  "canonical_from upper [] = []"
| "canonical_from upper (c # cs) =
     (let c' = (if upper \<and> is_lower c then to_upper c
                else if \<not> upper \<and> is_upper c then to_lower c
                else c)
      in c' # canonical_from (c' = CHR ''-'') cs)"

definition CanonicalMIMEHeaderKey :: "string \<Rightarrow> string" where
  "CanonicalMIMEHeaderKey s =
     (if list_all validHeaderFieldByte s then canonical_from True s else s)"

text \<open>\<open>Header.Get\<close> returns the first value stored under the canonical key, or the empty
  string; \<open>Header.Set\<close> replaces the values under the canonical key by the one given.\<close>

definition Header_Get :: "header \<Rightarrow> string \<Rightarrow> string" where
  "Header_Get h key =
     (case h (CanonicalMIMEHeaderKey key) of
        None \<Rightarrow> []
      | Some [] \<Rightarrow> []
      | Some (v # vs) \<Rightarrow> v)"

definition Header_Set :: "header \<Rightarrow> string \<Rightarrow> string \<Rightarrow> header" where
  "Header_Set h key val = h(CanonicalMIMEHeaderKey key \<mapsto> [val])"

subsection \<open>Requests\<close>

text \<open>A request body is an \<open>io.Reader\<close>: \<open>None\<close> is the nil reader, \<open>Some b\<close> a reader
  that yields the bytes \<open>b\<close>.\<close>

record request =
  Method :: string
  req_URL :: URL
  req_Host :: string
  Header :: header
  Body :: "string option"

datatype Context = Background | Derived nat

definition validMethod :: "string \<Rightarrow> bool" where
  "validMethod method = (method \<noteq> [] \<and> list_all validHeaderFieldByte method)"

definition hasPort :: "string \<Rightarrow> bool" where
  "hasPort s = (CHR '':'' \<in> set (takeWhile (\<lambda>c. c \<noteq> CHR '']'') (rev s)))"

definition removeEmptyPort :: "string \<Rightarrow> string" where
  "removeEmptyPort host =
     (if hasPort host \<and> HasSuffix host '':'' then butlast host else host)"

text \<open>\<open>http.NewRequestWithContext\<close>, with the URL parser as a parameter.\<close>

definition NewRequestWithContext ::
  "(string \<Rightarrow> error + URL) \<Rightarrow> Context option \<Rightarrow> string \<Rightarrow> string \<Rightarrow> string option
     \<Rightarrow> error + request" where
  "NewRequestWithContext url_parse ctx method0 url body =
     (let method = (if method0 = [] then ''GET'' else method0)
      in if \<not> validMethod method then Inl (Error (''net/http: invalid method '' @ method))
         else if ctx = None then Inl (Error ''net/http: nil Context'')
         else (case url_parse url of
                 Inl err \<Rightarrow> Inl err
               | Inr u \<Rightarrow>
                   Inr \<lparr>Method = method, req_URL = u\<lparr>Host := removeEmptyPort (Host u)\<rparr>,
                        req_Host = removeEmptyPort (Host u), Header = Map.empty,
                        Body = body\<rparr>))"

section \<open>Package logger\<close>

text \<open>\<open>logger.Logger\<close> is an interface. \<open>NoOp\<close> is the implementation in the repository; any
  other implementation is a sink with an identity. \<open>log_call\<close> is one record handed to
  a logger: the logger, the level, the message and the attached fields. The trace of these
  calls is what the client emits; a \<open>NoOp\<close> logger drops what it is handed.\<close>

datatype logger = NoOp | Sink nat

datatype log_value = Str string | ErrV error

record log_call =
  log_logger :: logger
  log_level :: string
  log_msg :: string
  log_fields :: "(string \<times> log_value) list"

section \<open>The transport chain\<close>

text \<open>A cookie jar is known by its identity; what it holds is a matter of the outside
  world.\<close>

datatype cookiejar = CookieJar nat

text \<open>What \<open>http.Client\<close> makes of a response: it is the result (no redirect, or a redirect
  without a \<open>Location\<close>), or the next request cannot be made (the \<open>Location\<close> does not
  parse, or the body cannot be read again), or there is a next request to make, with the
  method, URL, body and headers that \<open>net/http\<close> gives it.\<close>

datatype redirect_step = NoRedirect | HopFailed error | NextHop request

text \<open>The part of the outside world a request runs in: the answer of
  \<open>http.DefaultTransport\<close> to a request, which may depend on how many requests it has
  served before, the header dumps of \<open>httputil\<close>, the elapsed time the logging link
  reads off the clock, and the order in which a \<open>range\<close> over a map visits its keys. For
  \<open>http.Client\<close> there are the cookies, in their printed form \<open>name=value\<close>, that a jar
  holds for a URL (they change as responses arrive, hence the count of requests served),
  the Base64 form of the credentials of a URL, and the redirect policy: what the client
  makes of a response, given the requests of the call so far, the last being the one
  answered.\<close>

record env =
  network :: "nat \<Rightarrow> request \<Rightarrow> response option \<times> error option"
  DumpRequestOut :: "request \<Rightarrow> string"
  DumpResponse :: "response \<Rightarrow> string"
  Since :: string
  rank :: "string \<Rightarrow> nat"
  jar_Cookies :: "cookiejar \<Rightarrow> nat \<Rightarrow> URL \<Rightarrow> string list"
  basicAuth :: "string \<Rightarrow> string"
  redirect :: "request list \<Rightarrow> response \<Rightarrow> redirect_step"

text \<open>A Go map \<open>map[string]T\<close> is modelled as an association list; a nil map is the empty
  list, which the code never tells apart from an empty map. Go leaves the order of a
  \<open>range\<close> over a map unspecified: the loop visits the entries as the environment ranks
  their keys. Whatever the ranks, every entry is visited once.\<close>

definition range_map :: "env \<Rightarrow> (string \<times> 'v) list \<Rightarrow> (string \<times> 'v) list" where
  "range_map e m = sort_key (\<lambda>kv. rank e (fst kv)) m"

text \<open>The state a request runs in: \<open>cur\<close> is the \<open>*http.Request\<close> that every link
  receives (the links share and mutate the one object), \<open>logs\<close> the records emitted so far,
  \<open>wire\<close> the requests that reached \<open>http.DefaultTransport\<close>, in order.\<close>

record world =
  cur :: request
  logs :: "log_call list"
  wire :: "request list"

text \<open>\<open>http.RoundTripper\<close>: the terminal transport and the two links of the repository
  (both versions of \<open>transport.go\<close> declare them, with the same \<open>RoundTrip\<close> code). \<open>Next\<close>
  may be nil.\<close>

datatype RoundTripper =
    DefaultTransport
  | HeadersTransport "RoundTripper option" "(string \<times> string) list"
  | LoggingTransport "RoundTripper option" logger bool

definition "next" :: "RoundTripper option \<Rightarrow> RoundTripper" where
  "next n = (case n of Some t \<Rightarrow> t | None \<Rightarrow> DefaultTransport)"

text \<open>The loop of \<open>HeadersTransport.RoundTrip\<close>, on the entries in the order visited.\<close>

definition applyHeaders :: "(string \<times> string) list \<Rightarrow> request \<Rightarrow> request" where
  "applyHeaders hs r =
     foldl (\<lambda>r (k, v). if Header_Get (Header r) k = []
                        then r\<lparr>Header := Header_Set (Header r) k v\<rparr> else r) r hs"

definition emit :: "logger \<Rightarrow> string \<Rightarrow> string \<Rightarrow> (string \<times> log_value) list \<Rightarrow> world \<Rightarrow> world" where
  "emit l lvl m fs s = s\<lparr>logs := logs s @ [\<lparr>log_logger = l, log_level = lvl, log_msg = m, log_fields = fs\<rparr>]\<rparr>"

definition logRequest :: "env \<Rightarrow> logger \<Rightarrow> request \<Rightarrow> string \<Rightarrow> world \<Rightarrow> world" where
  "logRequest e l req body s =
     emit l ''debug'' ''HTTP Request''
       ([(''method'', Str (Method req)),
         (''url'', Str (URL_String (req_URL req))),
         (''headers'', Str (DumpRequestOut e req)),
         (''duration'', Str (Since e))]
        @ (if length body > 0 then [(''body'', Str body)] else [])) s"

definition logResponse :: "env \<Rightarrow> logger \<Rightarrow> response \<Rightarrow> world \<Rightarrow> world" where
  "logResponse e l resp s =
     (let body = (case resp_Body resp of None \<Rightarrow> [] | Some b \<Rightarrow> b)
      in emit l ''debug'' ''HTTP Response''
           ([(''status'', Str (Status resp)),
             (''headers'', Str (DumpResponse e resp))]
            @ (if length body > 0 then [(''body'', Str body)] else [])) s)"

function RoundTrip ::
  "env \<Rightarrow> RoundTripper \<Rightarrow> world \<Rightarrow> (response option \<times> error option) \<times> world" where
  "RoundTrip e DefaultTransport s =
     (network e (length (wire s)) (cur s), s\<lparr>wire := wire s @ [cur s]\<rparr>)"
| "RoundTrip e (HeadersTransport n hs) s =
     RoundTrip e (next n) (s\<lparr>cur := applyHeaders (range_map e hs) (cur s)\<rparr>)"
| "RoundTrip e (LoggingTransport n l debug) s =
     (if \<not> debug then RoundTrip e (next n) s
      else
        (let reqBody = (case Body (cur s) of None \<Rightarrow> [] | Some b \<Rightarrow> b);
             (res, s1) = RoundTrip e (next n) s;
             s2 = logRequest e l (cur s1) reqBody s1
         in (res, if snd res = None \<and> fst res \<noteq> None
                  then logResponse e l (the (fst res)) s2 else s2)))"
  by pat_completeness auto
termination
  by (relation "measure (\<lambda>(e, t, s). size t)") (auto simp: next_def split: option.splits)

text \<open>\<open>TransportOption\<close>, \<open>WithHeadersTransport\<close>, \<open>WithLogging\<close> and \<open>NewTransport\<close>. The loop
  of \<open>NewTransport\<close> runs from the last option to the first and wraps what it has built in
  each, which is a right fold.\<close>

type_synonym TransportOption = "RoundTripper \<Rightarrow> RoundTripper"

definition WithHeadersTransport :: "(string \<times> string) list \<Rightarrow> TransportOption" where
  "WithHeadersTransport headers = (\<lambda>n. HeadersTransport (Some n) headers)"

definition WithLogging :: "logger \<Rightarrow> bool \<Rightarrow> TransportOption" where
  "WithLogging l debug = (\<lambda>n. LoggingTransport (Some n) l debug)"

definition NewTransport :: "TransportOption list \<Rightarrow> RoundTripper" where
  "NewTransport opts = foldr (\<lambda>opt transport. opt transport) opts DefaultTransport"

section \<open>Client configuration\<close>

text \<open>\<open>http.Client\<close> and the \<open>Doer\<close> interface: a custom implementation, or the
  \<open>http.Client\<close> that \<open>createDefaultDoer\<close> builds.\<close>

record http_Client =
  hc_Timeout :: int
  hc_Transport :: RoundTripper
  hc_Jar :: "cookiejar option"

datatype Doer =
    CustomDoer_impl "request \<Rightarrow> response option \<times> error option"
  | HTTPClient http_Client

text \<open>Durations are nanoseconds; only their sign is ever tested.\<close>

record ClientConfig =
  BaseURL :: "URL option"
  Timeout :: int
  RetryAttempts :: int
  Headers :: "(string \<times> string) list"
  Jar :: "cookiejar option"
  Logger :: logger
  Debug :: bool
  CustomDoer :: "Doer option"

definition defaultTimeout :: int where
  "defaultTimeout = 10 * 1000000000"

definition defaultUserAgent :: string where
  "defaultUserAgent = ''Mozilla/5.0 (Windows NT 10.0; Win64; x64) AppleWebKit/537.36''"

text \<open>A \<open>ClientOption\<close> mutates the configuration draft; \<open>WithBaseURL\<close> also calls the
  draft's logger, so an option works on the draft and the trace of log records.\<close>

type_synonym ClientOption = "ClientConfig \<times> log_call list \<Rightarrow> ClientConfig \<times> log_call list"

definition WithTimeout :: "int \<Rightarrow> ClientOption" where
  "WithTimeout d = (\<lambda>(cfg, tr). if d > 0 then (cfg\<lparr>Timeout := d\<rparr>, tr) else (cfg, tr))"

definition normalizeBaseURL :: "(string \<Rightarrow> error + URL) \<Rightarrow> string \<Rightarrow> error + URL" where
  "normalizeBaseURL url_parse baseURL =
     (case url_parse baseURL of
        Inl err \<Rightarrow> Inl (Errorf ''invalid base URL: %w'' (Some err))
      | Inr u \<Rightarrow>
          if \<not> IsAbs u
            then Inl (Errorf ''base URL must be absolute (have scheme and host)'' None)
          else Inr (u\<lparr>Path := TrimRight (Path u) (CHR ''/'')\<rparr>))"

definition WithBaseURL :: "(string \<Rightarrow> error + URL) \<Rightarrow> string \<Rightarrow> ClientOption" where
  "WithBaseURL url_parse baseURL =
     (\<lambda>(cfg, tr).
        if baseURL = [] then (cfg, tr)
        else (case normalizeBaseURL url_parse baseURL of
                Inl err \<Rightarrow>
                  (cfg, tr @ [\<lparr>log_logger = Logger cfg, log_level = ''error'',
                               log_msg = ''invalid baseURL'',
                               log_fields = [(''url'', Str baseURL), (''error'', ErrV err)]\<rparr>])
              | Inr u \<Rightarrow> (cfg\<lparr>BaseURL := Some u\<rparr>, tr)))"

definition WithRetryAttempts :: "int \<Rightarrow> ClientOption" where
  "WithRetryAttempts attempts =
     (\<lambda>(cfg, tr). if attempts \<ge> 0 then (cfg\<lparr>RetryAttempts := attempts\<rparr>, tr) else (cfg, tr))"

text \<open>\<open>maps.Copy(dst, src)\<close> stores every entry of \<open>src\<close> in \<open>dst\<close>.\<close>

definition maps_Copy :: "(string \<times> string) list \<Rightarrow> (string \<times> string) list \<Rightarrow> (string \<times> string) list" where
  "maps_Copy dst src = foldl (\<lambda>d (k, v). AList.update k v d) dst src"

definition WithHeaders :: "(string \<times> string) list \<Rightarrow> ClientOption" where
  "WithHeaders headers =
     (\<lambda>(cfg, tr).
        if length headers = 0 then (cfg, tr)
        else (cfg\<lparr>Headers := maps_Copy (Headers cfg) headers\<rparr>, tr))"

definition WithCookieJar :: "cookiejar option \<Rightarrow> ClientOption" where
  "WithCookieJar jar = (\<lambda>(cfg, tr). if jar \<noteq> None then (cfg\<lparr>Jar := jar\<rparr>, tr) else (cfg, tr))"

definition WithLogger :: "logger option \<Rightarrow> ClientOption" where
  "WithLogger l =
     (\<lambda>(cfg, tr). case l of Some l' \<Rightarrow> (cfg\<lparr>Logger := l'\<rparr>, tr) | None \<Rightarrow> (cfg, tr))"

definition WithDebug :: "bool \<Rightarrow> ClientOption" where
  "WithDebug enable = (\<lambda>(cfg, tr). (cfg\<lparr>Debug := enable\<rparr>, tr))"

definition WithCustomDoer :: "Doer option \<Rightarrow> ClientOption" where
  "WithCustomDoer d = (\<lambda>(cfg, tr). if d \<noteq> None then (cfg\<lparr>CustomDoer := d\<rparr>, tr) else (cfg, tr))"

definition default_config :: ClientConfig where
  "default_config =
     \<lparr>BaseURL = None, Timeout = defaultTimeout, RetryAttempts = 3,
      Headers = [(''User-Agent'', defaultUserAgent)], Jar = None, Logger = NoOp,
      Debug = False, CustomDoer = None\<rparr>"

definition buildConfig :: "ClientOption list \<Rightarrow> ClientConfig \<times> log_call list" where
  "buildConfig opts = foldl (\<lambda>d opt. opt d) (default_config, []) opts"

text \<open>The calls of the option constructors, to speak about every sequence of options a
  caller can write.\<close>

datatype option_call =
    TimeoutOpt int
  | BaseURLOpt string
  | RetryAttemptsOpt int
  | HeadersOpt "(string \<times> string) list"
  | CookieJarOpt "cookiejar option"
  | LoggerOpt "logger option"
  | DebugOpt bool
  | CustomDoerOpt "Doer option"

fun option_of :: "(string \<Rightarrow> error + URL) \<Rightarrow> option_call \<Rightarrow> ClientOption" where
  "option_of url_parse (TimeoutOpt d) = WithTimeout d"
| "option_of url_parse (BaseURLOpt b) = WithBaseURL url_parse b"
| "option_of url_parse (RetryAttemptsOpt n) = WithRetryAttempts n"
| "option_of url_parse (HeadersOpt h) = WithHeaders h"
| "option_of url_parse (CookieJarOpt j) = WithCookieJar j"
| "option_of url_parse (LoggerOpt l) = WithLogger l"
| "option_of url_parse (DebugOpt b) = WithDebug b"
| "option_of url_parse (CustomDoerOpt d) = WithCustomDoer d"

section \<open>The client\<close>

text \<open>\<open>buildTransport\<close> (the current \<open>transport.go\<close>) and the chain the earlier
  \<open>createDefaultDoer\<close> built with \<open>NewTransport\<close>.\<close>

definition buildTransport :: "ClientConfig \<Rightarrow> RoundTripper" where
  "buildTransport cfg =
     (let tr = DefaultTransport;
          tr = LoggingTransport (Some tr) (Logger cfg) (Debug cfg);
          tr = HeadersTransport (Some tr) (Headers cfg)
      in tr)"

definition createDefaultDoer :: "ClientConfig \<Rightarrow> Doer" where
  "createDefaultDoer cfg =
     HTTPClient \<lparr>hc_Timeout = Timeout cfg, hc_Transport = buildTransport cfg, hc_Jar = Jar cfg\<rparr>"

definition createDefaultDoer_NewTransport :: "ClientConfig \<Rightarrow> Doer" where
  "createDefaultDoer_NewTransport cfg =
     HTTPClient \<lparr>hc_Timeout = Timeout cfg,
                 hc_Transport = NewTransport [WithHeadersTransport (Headers cfg),
                                              WithLogging (Logger cfg) (Debug cfg)],
                 hc_Jar = Jar cfg\<rparr>"

record Client =
  doer :: Doer
  baseURL :: "URL option"
  logger :: logger
  config :: ClientConfig

definition New :: "ClientOption list \<Rightarrow> (Client option \<times> error option) \<times> log_call list" where
  "New opts =
     (case buildConfig opts of (cfg, tr) \<Rightarrow>
        (let d = (case CustomDoer cfg of Some d' \<Rightarrow> d' | None \<Rightarrow> createDefaultDoer cfg)
         in ((Some \<lparr>doer = d, baseURL = BaseURL cfg, logger = Logger cfg, config = cfg\<rparr>, None),
             tr)))"

record RequestConfig =
  Params :: "Values option"
  opt_Body :: "string option"
  opt_Headers :: "(string \<times> string) list"

definition addQueryParams :: "env \<Rightarrow> URL \<Rightarrow> Values option \<Rightarrow> URL" where
  "addQueryParams e u params =
     (case params of
        None \<Rightarrow> u
      | Some ps \<Rightarrow>
          u\<lparr>RawQuery :=
               Values_Encode
                 (foldl (\<lambda>q (k, vals). foldl (\<lambda>q v. Values_Add q k v) q vals) (URL_Query u)
                    (range_map e ps))\<rparr>)"

definition resolveURL ::
  "(string \<Rightarrow> error + URL) \<Rightarrow> env \<Rightarrow> Client \<Rightarrow> string \<Rightarrow> Values option
     \<Rightarrow> error + URL" where
  "resolveURL url_parse e c pathOrURL queryParams =
     (case url_parse pathOrURL of
        Inl err \<Rightarrow> Inl (errors_Wrap err (''invalid URL or path: '' @ pathOrURL))
      | Inr u \<Rightarrow>
          if IsAbs u then Inr (addQueryParams e u queryParams)
          else (case baseURL c of
                  None \<Rightarrow> Inl (errors_New ''cannot resolve relative path without a base URL'')
                | Some b \<Rightarrow> Inr (addQueryParams e (ResolveReference b u) queryParams)))"

text \<open>\<open>(*http.Client).Do\<close>, with the default redirect check (the client of the repository
  sets none). The timeout is a matter of the outside world: a round trip that exceeds it is
  a round trip that fails. \<open>AddCookie\<close> appends a cookie, in its printed form, to the
  \<open>Cookie\<close> header.\<close>

definition urlErrorOp :: "string \<Rightarrow> string" where
  "urlErrorOp method = (if method = [] then ''Get'' else take 1 method @ ToLower (drop 1 method))"

definition AddCookie :: "request \<Rightarrow> string \<Rightarrow> request" where
  "AddCookie r s =
     (let c = Header_Get (Header r) ''Cookie''
      in r\<lparr>Header := Header_Set (Header r) ''Cookie'' (if c \<noteq> [] then c @ ''; '' @ s else s)\<rparr>)"

text \<open>\<open>stripPassword\<close>, on the printed user information: a password, the part after the
  first colon, is replaced by three stars.\<close>

definition stripPassword :: "URL \<Rightarrow> string" where
  "stripPassword u =
     (case User u of
        None \<Rightarrow> URL_String u
      | Some ui \<Rightarrow>
          if CHR '':'' \<in> set ui
            then URL_String (u\<lparr>User := Some (takeWhile (\<lambda>c. c \<noteq> CHR '':'') ui @ '':***'')\<rparr>)
          else URL_String u)"

text \<open>What \<open>send\<close> does to a request before the transport gets it: the cookies that the
  jar holds for the URL are added, and the credentials of the URL become an
  \<open>Authorization\<close> header unless the request has one.\<close>

definition http_Client_prepare :: "env \<Rightarrow> http_Client \<Rightarrow> request \<Rightarrow> world \<Rightarrow> request" where
  "http_Client_prepare e hc req s =
     (let req1 = (case hc_Jar hc of
                    None \<Rightarrow> req
                  | Some jar \<Rightarrow>
                      foldl AddCookie req (jar_Cookies e jar (length (wire s)) (req_URL req)))
      in case User (req_URL req1) of
           None \<Rightarrow> req1
         | Some ui \<Rightarrow>
             if Header_Get (Header req1) ''Authorization'' = []
               then req1\<lparr>Header := Header_Set (Header req1) ''Authorization''
                                     (''Basic '' @ basicAuth e ui)\<rparr>
             else req1)"

text \<open>\<open>send\<close>: one round trip through the transport of the client. A transport error
  comes back without a response, and a transport that returns neither a response nor an
  error is an error.\<close>

definition http_Client_send ::
  "env \<Rightarrow> http_Client \<Rightarrow> request \<Rightarrow> world \<Rightarrow> (error + response) \<times> world" where
  "http_Client_send e hc req s =
     (case RoundTrip e (hc_Transport hc) (s\<lparr>cur := http_Client_prepare e hc req s\<rparr>) of
        ((resp, err), s') \<Rightarrow>
          (case err of
             Some er \<Rightarrow> (Inl er, s')
           | None \<Rightarrow>
               (case resp of
                  None \<Rightarrow>
                    (Inl (Error ''http: RoundTripper implementation returned a nil *Response with a nil error''),
                     s')
                | Some r \<Rightarrow> (Inr r, s'))))"

text \<open>The loop of \<open>(*Client).do\<close>; \<open>reqs\<close> are the requests of the call made so far. A
  failed round trip ends the call with a \<open>*url.Error\<close>. A response that is not to be
  followed is the result. Otherwise the next request is made, unless ten requests have
  been made already: the default redirect check then fails, and the call returns the last
  response together with the error.\<close>

function http_Client_do ::
  "env \<Rightarrow> http_Client \<Rightarrow> request list \<Rightarrow> request \<Rightarrow> world
     \<Rightarrow> (response option \<times> error option) \<times> world" where
  "http_Client_do e hc reqs req s =
     (case http_Client_send e hc req s of
        (Inl er, s') \<Rightarrow>
          ((None, Some (URLError (urlErrorOp (Method (hd (reqs @ [req]))))
                          (stripPassword (req_URL req)) er)), s')
      | (Inr r, s') \<Rightarrow>
          (case redirect e (reqs @ [req]) r of
             NoRedirect \<Rightarrow> ((Some r, None), s')
           | HopFailed er \<Rightarrow>
               ((None, Some (URLError (urlErrorOp (Method (hd (reqs @ [req]))))
                               (stripPassword (req_URL req)) er)), s')
           | NextHop req' \<Rightarrow>
               if length (reqs @ [req]) \<ge> 10
                 then ((Some r, Some (URLError (urlErrorOp (Method (hd (reqs @ [req]))))
                                        (Header_Get (resp_Header r) ''Location'')
                                        (Error ''stopped after 10 redirects''))), s')
               else http_Client_do e hc (reqs @ [req]) req' s'))"
  by pat_completeness auto
termination
  by (relation "measure (\<lambda>(e, hc, reqs, req, s). 10 - length reqs)") auto

definition http_Client_Do ::
  "env \<Rightarrow> http_Client \<Rightarrow> request \<Rightarrow> world \<Rightarrow> (response option \<times> error option) \<times> world" where
  "http_Client_Do e hc req s = http_Client_do e hc [] req s"

definition Doer_Do ::
  "env \<Rightarrow> Doer \<Rightarrow> request \<Rightarrow> world \<Rightarrow> (response option \<times> error option) \<times> world" where
  "Doer_Do e d req s =
     (case d of
        CustomDoer_impl f \<Rightarrow> (f req, s\<lparr>cur := req\<rparr>)
      | HTTPClient hc \<Rightarrow> http_Client_Do e hc req s)"

text \<open>The result of a call: the pair Go returns, or a panic (a nil response dereferenced).\<close>

datatype 'a outcome = Return 'a | Panic

text \<open>The loop of \<open>do\<close> over the per-request headers, on the entries in the order
  visited.\<close>

definition setHeaders :: "(string \<times> string) list \<Rightarrow> request \<Rightarrow> request" where
  "setHeaders hs r = foldl (\<lambda>r (k, v). r\<lparr>Header := Header_Set (Header r) k v\<rparr>) r hs"

definition do ::
  "(string \<Rightarrow> error + URL) \<Rightarrow> env \<Rightarrow> Client \<Rightarrow> Context option \<Rightarrow> string \<Rightarrow> string
     \<Rightarrow> RequestConfig option \<Rightarrow> world
     \<Rightarrow> (response option \<times> error option) outcome \<times> world" where
  "do url_parse e c ctx method urlOrPath opts0 s =
     (let opts = (case opts0 of
                    None \<Rightarrow> \<lparr>Params = None, opt_Body = None, opt_Headers = []\<rparr>
                  | Some rc \<Rightarrow> rc)
      in case resolveURL url_parse e c urlOrPath (Params opts) of
           Inl err \<Rightarrow> (Return (None, Some (errors_Wrap err ''failed to resolve URL'')), s)
         | Inr u \<Rightarrow>
             (case NewRequestWithContext url_parse ctx method (URL_String u) (opt_Body opts) of
                Inl err \<Rightarrow> (Return (None, Some (errors_Wrap err ''failed to create request'')), s)
              | Inr req0 \<Rightarrow>
                  (let req = setHeaders (range_map e (opt_Headers opts)) req0
                   in case Doer_Do e (doer c) req s of
                        ((resp, err), s') \<Rightarrow>
                          (case err of
                             Some er \<Rightarrow>
                               (Return (None, Some (NewHTTPError None (Some er) ''request failed'')), s')
                           | None \<Rightarrow>
                               (case resp of
                                  None \<Rightarrow> (Panic, s')
                                | Some r \<Rightarrow>
                                    if StatusCode r \<ge> 400
                                      then (Return (Some r, Some (NewHTTPError (Some r) None
                                              ''request returned error status'')), s')
                                    else (Return (Some r, None), s'))))))"

definition Get ::
  "(string \<Rightarrow> error + URL) \<Rightarrow> env \<Rightarrow> Client \<Rightarrow> Context option \<Rightarrow> string
     \<Rightarrow> RequestConfig option \<Rightarrow> world
     \<Rightarrow> (response option \<times> error option) outcome \<times> world" where
  "Get url_parse e c ctx path opts s = do url_parse e c ctx ''GET'' path opts s"

definition Post ::
  "(string \<Rightarrow> error + URL) \<Rightarrow> env \<Rightarrow> Client \<Rightarrow> Context option \<Rightarrow> string
     \<Rightarrow> RequestConfig option \<Rightarrow> world
     \<Rightarrow> (response option \<times> error option) outcome \<times> world" where
  "Post url_parse e c ctx path opts s = do url_parse e c ctx ''POST'' path opts s"

text \<open>The state before a call: nothing logged, nothing sent; \<open>cur\<close> is a placeholder until
  \<open>do\<close> creates the request.\<close>

definition no_request :: request where
  "no_request = \<lparr>Method = [], req_URL = URL_zero, req_Host = [], Header = Map.empty, Body = None\<rparr>"

definition world0 :: world where
  "world0 = \<lparr>cur = no_request, logs = [], wire = []\<rparr>"

subsection \<open>The error taxonomy\<close>

text \<open>Modelled from the spec: the package \<open>pkg/errors\<close> of the repository (\<open>New\<close>, \<open>Wrap\<close>,
  \<open>Wrapf\<close>, \<open>NewHTTPError\<close> and its error types) is not among the sources. The classes are the
  spec's: a configuration error is a failed resolution or a malformed target, a network
  error is a transport failure without a response, an HTTP status error carries the
  response whose status signals the failure.\<close>

datatype error_class = ConfigurationError | NetworkError | HTTPStatusError

fun classify :: "error \<Rightarrow> error_class option" where
  "classify (NewHTTPError (Some r) cause m) = Some HTTPStatusError"
| "classify (NewHTTPError None (Some er) m) = Some NetworkError"
| "classify (errors_Wrap er m) = Some ConfigurationError"
| "classify (errors_New m) = Some ConfigurationError"
| "classify er = None"

fun carried_response :: "error \<Rightarrow> response option" where
  "carried_response (NewHTTPError r cause m) = r"
| "carried_response er = None"

fun carried_status :: "error \<Rightarrow> int option" where
  "carried_status (NewHTTPError (Some r) cause m) = Some (StatusCode r)"
| "carried_status er = None"

subsection \<open>Auxiliary notions for the properties\<close>

text \<open>The request that \<open>do\<close> hands to its \<open>Doer\<close>: the target resolved, the request created,
  the per-request headers set. \<open>Inl\<close> is the error \<open>do\<close> returns without calling the \<open>Doer\<close>.\<close>

definition built_request ::
  "(string \<Rightarrow> error + URL) \<Rightarrow> env \<Rightarrow> Client \<Rightarrow> Context option \<Rightarrow> string \<Rightarrow> string
     \<Rightarrow> RequestConfig option \<Rightarrow> error + request" where
  "built_request url_parse e c ctx method urlOrPath opts0 =
     (let opts = (case opts0 of
                    None \<Rightarrow> \<lparr>Params = None, opt_Body = None, opt_Headers = []\<rparr>
                  | Some rc \<Rightarrow> rc)
      in case resolveURL url_parse e c urlOrPath (Params opts) of
           Inl err \<Rightarrow> Inl (errors_Wrap err ''failed to resolve URL'')
         | Inr u \<Rightarrow>
             (case NewRequestWithContext url_parse ctx method (URL_String u) (opt_Body opts) of
                Inl err \<Rightarrow> Inl (errors_Wrap err ''failed to create request'')
              | Inr req0 \<Rightarrow> Inr (setHeaders (range_map e (opt_Headers opts)) req0)))"

text \<open>Two environments to run examples in: a network that refuses every request, and one
  that answers every request with a given status; in both the jars are empty and no
  response is followed.\<close>

definition refusing :: env where
  "refusing =
     \<lparr>network = (\<lambda>n r. (None, Some (Error ''connection refused''))),
      DumpRequestOut = (\<lambda>r. Method r @ '' '' @ URL_String (req_URL r)),
      DumpResponse = (\<lambda>r. Status r), Since = ''1ms'', rank = (\<lambda>k. 0),
      jar_Cookies = (\<lambda>jar n u. []), basicAuth = (\<lambda>ui. ui),
      redirect = (\<lambda>reqs r. NoRedirect)\<rparr>"

definition answer :: "int \<Rightarrow> response" where
  "answer code = \<lparr>StatusCode = code, Status = ''status'', resp_Header = Map.empty,
                   resp_Body = Some ''body''\<rparr>"

definition answering :: "int \<Rightarrow> env" where
  "answering code = refusing\<lparr>network := (\<lambda>n r. (Some (answer code), None))\<rparr>"

definition client_of :: "option_call list \<Rightarrow> Client" where
  "client_of opts = the (fst (fst (New (map (option_of url_Parse) opts))))"

definition example_url :: URL where
  "example_url =
     \<lparr>Scheme = ''https'', Opaque = [], User = None, Host = ''example.com'', Path = ''/x'',
      RawPath = [], OmitHost = False, ForceQuery = False, RawQuery = [], Fragment = [],
      RawFragment = []\<rparr>"

definition example_request :: request where
  "example_request =
     \<lparr>Method = ''GET'', req_URL = example_url, req_Host = ''example.com'', Header = Map.empty,
      Body = None\<rparr>"

text \<open>The option values that the option constructors accept; any other value leaves the
  draft as it is. A base URL is accepted when it is not empty, parses, and is absolute.\<close>

definition valid_option :: "(string \<Rightarrow> error + URL) \<Rightarrow> option_call \<Rightarrow> bool" where
  "valid_option url_parse oc =
     (case oc of
        TimeoutOpt d \<Rightarrow> d > 0
      | BaseURLOpt b \<Rightarrow>
          b \<noteq> [] \<and> (case url_parse b of Inl er \<Rightarrow> False | Inr u \<Rightarrow> IsAbs u)
      | RetryAttemptsOpt n \<Rightarrow> n \<ge> 0
      | HeadersOpt h \<Rightarrow> h \<noteq> []
      | CookieJarOpt j \<Rightarrow> (case j of None \<Rightarrow> False | Some x \<Rightarrow> True)
      | LoggerOpt l \<Rightarrow> (case l of None \<Rightarrow> False | Some x \<Rightarrow> True)
      | DebugOpt b \<Rightarrow> True
      | CustomDoerOpt d \<Rightarrow> (case d of None \<Rightarrow> False | Some x \<Rightarrow> True))"

section \<open>Properties\<close>

subsection \<open>Ranging over a map\<close>

lemma range_map_Nil [simp]: "range_map e [] = []"
  by (simp add: range_map_def)

lemma set_range_map [simp]: "set (range_map e m) = set m"
  by (simp add: range_map_def)

lemma distinct_range_map [simp]: "distinct (range_map e m) = distinct m"
  by (simp add: range_map_def)

lemma distinct_map_range_map:
  "distinct (map f (range_map e m)) = distinct (map f m)"
  by (simp add: distinct_map)

lemma range_map_single [simp]: "range_map e [kv] = [kv]"
  by (simp add: range_map_def)

lemma range_map_pair:
  "range_map e [a, b] = (if rank e (fst a) \<le> rank e (fst b) then [a, b] else [b, a])"
  by (simp add: range_map_def)

subsection \<open>Running examples\<close>

lemma url_Parse_example: "url_Parse ''https://example.com/x'' = Inr example_url"
proof -
  have "case url_Parse ''https://example.com/x'' of Inl e \<Rightarrow> False | Inr u \<Rightarrow> u = example_url"
    by code_simp
  then show ?thesis by (simp split: sum.splits)
qed

lemma URL_String_example: "URL_String example_url = ''https://example.com/x''"
  by code_simp

lemma built_request_example:
  "built_request url_Parse e c (Some Background) ''GET'' ''https://example.com/x'' None
     = Inr example_request"
proof -
  have v: "validMethod ''GET''" by code_simp
  have h: "removeEmptyPort (Host example_url) = ''example.com''" by code_simp
  have h': "example_url\<lparr>Host := ''example.com''\<rparr> = example_url" by code_simp
  have a: "IsAbs example_url" by code_simp
  show ?thesis
    by (simp add: built_request_def resolveURL_def url_Parse_example URL_String_example
        addQueryParams_def NewRequestWithContext_def setHeaders_def example_request_def v h h' a)
qed

lemma next_simps [simp]: "next (Some t) = t" "next None = DefaultTransport"
  by (simp_all add: next_def)

lemma RoundTrip_buildTransport_fst:
  "fst (RoundTrip e (buildTransport cfg) s)
     = network e (length (wire s)) (applyHeaders (range_map e (Headers cfg)) (cur s))"
  by (simp add: buildTransport_def Let_def split: prod.splits)

lemma http_Client_send_fst:
  assumes "hc_Transport hc = buildTransport cfg"
  shows "fst (http_Client_send e hc req s) =
           (case network e (length (wire s))
                   (applyHeaders (range_map e (Headers cfg)) (http_Client_prepare e hc req s)) of
              (resp, Some er) \<Rightarrow> Inl er
            | (None, None) \<Rightarrow>
                Inl (Error ''http: RoundTripper implementation returned a nil *Response with a nil error'')
            | (Some r, None) \<Rightarrow> Inr r)"
proof -
  let ?s = "s\<lparr>cur := http_Client_prepare e hc req s\<rparr>"
  obtain res s' where rt: "RoundTrip e (buildTransport cfg) ?s = (res, s')"
    by (cases "RoundTrip e (buildTransport cfg) ?s")
  have "res = network e (length (wire s))
                (applyHeaders (range_map e (Headers cfg)) (http_Client_prepare e hc req s))"
    using RoundTrip_buildTransport_fst [of e cfg ?s] rt by simp
  then show ?thesis
    using rt assms by (simp add: http_Client_send_def split: prod.splits option.splits)
qed

lemma http_Client_do_error:
  assumes "fst (http_Client_send e hc req s) = Inl er"
  shows "http_Client_do e hc reqs req s =
           ((None, Some (URLError (urlErrorOp (Method (hd (reqs @ [req]))))
                           (stripPassword (req_URL req)) er)),
            snd (http_Client_send e hc req s))"
  using assms by (cases "http_Client_send e hc req s") simp

lemma http_Client_do_final:
  assumes "fst (http_Client_send e hc req s) = Inr r"
    and "redirect e (reqs @ [req]) r = NoRedirect"
  shows "http_Client_do e hc reqs req s = ((Some r, None), snd (http_Client_send e hc req s))"
  using assms by (cases "http_Client_send e hc req s") simp

lemma Doer_Do_default_response:
  assumes "network e (length (wire s))
             (applyHeaders (range_map e (Headers cfg))
                (http_Client_prepare e
                   \<lparr>hc_Timeout = Timeout cfg, hc_Transport = buildTransport cfg, hc_Jar = Jar cfg\<rparr>
                   req s)) = (Some r, None)"
    and "redirect e [req] r = NoRedirect"
  shows "fst (Doer_Do e (createDefaultDoer cfg) req s) = (Some r, None)"
proof -
  let ?hc = "\<lparr>hc_Timeout = Timeout cfg, hc_Transport = buildTransport cfg, hc_Jar = Jar cfg\<rparr>"
  have "fst (http_Client_send e ?hc req s) = Inr r"
    using http_Client_send_fst [of ?hc cfg e req s] assms(1) by simp
  then have "http_Client_do e ?hc [] req s = ((Some r, None), snd (http_Client_send e ?hc req s))"
    using assms(2) by (simp add: http_Client_do_final del: http_Client_do.simps)
  then show ?thesis
    by (simp add: Doer_Do_def createDefaultDoer_def http_Client_Do_def del: http_Client_do.simps)
qed

lemma Doer_Do_default_error:
  assumes "network e (length (wire s))
             (applyHeaders (range_map e (Headers cfg))
                (http_Client_prepare e
                   \<lparr>hc_Timeout = Timeout cfg, hc_Transport = buildTransport cfg, hc_Jar = Jar cfg\<rparr>
                   req s)) = (ro, Some er)"
  shows "fst (Doer_Do e (createDefaultDoer cfg) req s)
           = (None, Some (URLError (urlErrorOp (Method req)) (stripPassword (req_URL req)) er))"
proof -
  let ?hc = "\<lparr>hc_Timeout = Timeout cfg, hc_Transport = buildTransport cfg, hc_Jar = Jar cfg\<rparr>"
  have "fst (http_Client_send e ?hc req s) = Inl er"
    using http_Client_send_fst [of ?hc cfg e req s] assms by (simp split: option.splits)
  then show ?thesis
    by (simp add: Doer_Do_def createDefaultDoer_def http_Client_Do_def http_Client_do_error
        del: http_Client_do.simps)
qed

lemma doer_client_of_Nil: "doer (client_of []) = createDefaultDoer default_config"
  by (simp add: client_of_def New_def buildConfig_def default_config_def)

lemma Doer_Do_default_answering:
  "fst (Doer_Do (answering code) (doer (client_of [])) req s) = (Some (answer code), None)"
  unfolding doer_client_of_Nil
  by (rule Doer_Do_default_response) (simp_all add: answering_def refusing_def)

subsection \<open>The request executor\<close>

lemma do_built_request:
  "do url_parse e c ctx method target opts s =
     (case built_request url_parse e c ctx method target opts of
        Inl err \<Rightarrow> (Return (None, Some err), s)
      | Inr req \<Rightarrow>
          (case Doer_Do e (doer c) req s of
             ((resp, err), s') \<Rightarrow>
               (case err of
                  Some er \<Rightarrow> (Return (None, Some (NewHTTPError None (Some er) ''request failed'')), s')
                | None \<Rightarrow>
                    (case resp of
                       None \<Rightarrow> (Panic, s')
                     | Some r \<Rightarrow>
                         if StatusCode r \<ge> 400
                           then (Return (Some r, Some (NewHTTPError (Some r) None
                                   ''request returned error status'')), s')
                         else (Return (Some r, None), s')))))"
  by (simp add: do_def built_request_def Let_def split: sum.splits)

text \<open>C5. When the \<open>Doer\<close> answers the request with a response and no error, \<open>do\<close> returns
  that very response; with a status of 400 or more it also returns an HTTP status error that
  carries the response and its status code, and with a status below 400 it returns no error.\<close>

theorem do_classifies_response:
  assumes "built_request url_parse e c ctx method target opts = Inr req"
    and "Doer_Do e (doer c) req s = ((Some r, None), s')"
  shows "(StatusCode r \<ge> 400 \<longrightarrow>
            (\<exists>er. do url_parse e c ctx method target opts s = (Return (Some r, Some er), s')
                \<and> classify er = Some HTTPStatusError
                \<and> carried_response er = Some r
                \<and> carried_status er = Some (StatusCode r)))
       \<and> (StatusCode r < 400 \<longrightarrow>
            do url_parse e c ctx method target opts s = (Return (Some r, None), s'))"
  using assms by (simp add: do_built_request)

theorem do_classifies_response_witness:
  "(\<exists>er. do url_Parse (answering 404) (client_of []) (Some Background) ''GET''
            ''https://example.com/x'' None world0
          = (Return (Some (answer 404), Some er),
             snd (Doer_Do (answering 404) (doer (client_of [])) example_request world0))
        \<and> classify er = Some HTTPStatusError \<and> carried_status er = Some 404)
   \<and> do url_Parse (answering 200) (client_of []) (Some Background) ''GET''
        ''https://example.com/x'' None world0
      = (Return (Some (answer 200), None),
         snd (Doer_Do (answering 200) (doer (client_of [])) example_request world0))"
proof -
  have d: "Doer_Do (answering code) (doer (client_of [])) example_request world0
             = ((Some (answer code), None),
                snd (Doer_Do (answering code) (doer (client_of [])) example_request world0))"
    for code
    using Doer_Do_default_answering [of code example_request world0]
    by (simp add: prod_eq_iff)
  have c: "StatusCode (answer 404) = 404" "StatusCode (answer 200) = 200"
    by (simp_all add: answer_def)
  show ?thesis
    using do_classifies_response [OF built_request_example d [of 404]]
      do_classifies_response [OF built_request_example d [of 200]]
    by (auto simp: c)
qed

text \<open>C4. A client without a base URL, asked for a target that is not an absolute URL,
  returns a configuration error and leaves the world as it was: nothing reaches the
  network and nothing is logged. When the target parses (a relative reference), the error is
  the "cannot resolve relative path" error, wrapped as a resolution failure.\<close>

theorem relative_target_without_base:
  assumes "baseURL c = None"
    and "\<And>u. url_parse target = Inr u \<Longrightarrow> \<not> IsAbs u"
  shows "\<exists>er. do url_parse e c ctx method target opts s = (Return (None, Some er), s)
           \<and> classify er = Some ConfigurationError
           \<and> (\<forall>u. url_parse target = Inr u \<longrightarrow>
                 er = errors_Wrap
                        (errors_New ''cannot resolve relative path without a base URL'')
                        ''failed to resolve URL'')"
proof (cases "url_parse target")
  case (Inl err)
  then show ?thesis
    by (simp add: do_def resolveURL_def Let_def)
next
  case (Inr u)
  with assms show ?thesis
    by (simp add: do_def resolveURL_def Let_def)
qed

lemma url_Parse_users: "url_Parse ''/users'' = Inr (URL_zero\<lparr>Path := ''/users''\<rparr>)"
proof -
  have "case url_Parse ''/users'' of Inl e \<Rightarrow> False | Inr u \<Rightarrow> u = URL_zero\<lparr>Path := ''/users''\<rparr>"
    by code_simp
  then show ?thesis by (simp split: sum.splits)
qed

lemma baseURL_client_of_Nil: "baseURL (client_of []) = None"
  by (simp add: client_of_def New_def buildConfig_def default_config_def)

theorem relative_target_without_base_witness:
  "do url_Parse refusing (client_of []) (Some Background) ''GET'' ''/users'' None world0 =
     (Return (None, Some (errors_Wrap
        (errors_New ''cannot resolve relative path without a base URL'')
        ''failed to resolve URL'')), world0)
   \<and> wire world0 = []"
proof -
  have a: "\<not> IsAbs u" if "url_Parse ''/users'' = Inr u" for u
    using that by (auto simp: url_Parse_users IsAbs_def URL_zero_def)
  show ?thesis
    using relative_target_without_base [of "client_of []" url_Parse "''/users''" refusing
        "Some Background" "''GET''" None world0, OF baseURL_client_of_Nil a]
    by (auto simp: world0_def url_Parse_users)
qed

subsection \<open>The links\<close>

lemma Header_Get_cong:
  "CanonicalMIMEHeaderKey k' = CanonicalMIMEHeaderKey k \<Longrightarrow> Header_Get h k' = Header_Get h k"
  by (simp add: Header_Get_def)

lemma Header_Get_Set:
  "Header_Get (Header_Set h k v) k' =
     (if CanonicalMIMEHeaderKey k' = CanonicalMIMEHeaderKey k then v else Header_Get h k')"
  by (simp add: Header_Get_def Header_Set_def)

lemma applyHeaders_Nil [simp]: "applyHeaders [] r = r"
  by (simp add: applyHeaders_def)

lemma applyHeaders_Cons:
  "applyHeaders ((k, v) # hs) r =
     applyHeaders hs (if Header_Get (Header r) k = []
                      then r\<lparr>Header := Header_Set (Header r) k v\<rparr> else r)"
  by (simp add: applyHeaders_def)

text \<open>A header that has a value when the header link starts keeps it.\<close>

lemma applyHeaders_keeps:
  "Header_Get (Header r) k \<noteq> [] \<Longrightarrow>
     Header_Get (Header (applyHeaders hs r)) k = Header_Get (Header r) k"
proof (induction hs arbitrary: r)
  case Nil
  then show ?case by simp
next
  case (Cons a hs)
  obtain k' v' where a: "a = (k', v')" by (cases a)
  show ?case
  proof (cases "Header_Get (Header r) k' = []")
    case True
    with Cons.prems have ne: "CanonicalMIMEHeaderKey k \<noteq> CanonicalMIMEHeaderKey k'"
      using Header_Get_cong by metis
    have "Header_Get (Header (r\<lparr>Header := Header_Set (Header r) k' v'\<rparr>)) k
            = Header_Get (Header r) k"
      using ne by (simp add: Header_Get_Set)
    with Cons.prems Cons.IH [of "r\<lparr>Header := Header_Set (Header r) k' v'\<rparr>"] True a
    show ?thesis by (simp add: applyHeaders_Cons)
  next
    case False
    with Cons.prems Cons.IH [of r] a show ?thesis by (simp add: applyHeaders_Cons)
  qed
qed

text \<open>Every configured header with a non-empty value is on the request afterwards.\<close>

lemma applyHeaders_present:
  "(k, v) \<in> set hs \<Longrightarrow> v \<noteq> [] \<Longrightarrow> Header_Get (Header (applyHeaders hs r)) k \<noteq> []"
proof (induction hs arbitrary: r)
  case Nil
  then show ?case by simp
next
  case (Cons a hs)
  obtain k' v' where a: "a = (k', v')" by (cases a)
  let ?r = "if Header_Get (Header r) k' = []
            then r\<lparr>Header := Header_Set (Header r) k' v'\<rparr> else r"
  show ?case
  proof (cases "(k, v) = (k', v')")
    case True
    then have "Header_Get (Header ?r) k \<noteq> []"
      using Cons.prems(2) by (simp add: Header_Get_Set)
    then show ?thesis
      using applyHeaders_keeps [of ?r k hs] a by (simp add: applyHeaders_Cons)
  next
    case False
    with Cons.prems a have "(k, v) \<in> set hs" by auto
    from Cons.IH [OF this Cons.prems(2), of ?r] a show ?thesis
      by (simp add: applyHeaders_Cons)
  qed
qed

lemma applyHeaders_stays_in_map:
  "Header r ck \<noteq> None \<Longrightarrow> Header (applyHeaders hs r) ck \<noteq> None"
proof (induction hs arbitrary: r)
  case Nil
  then show ?case by simp
next
  case (Cons a hs)
  obtain k v where a: "a = (k, v)" by (cases a)
  have "Header (if Header_Get (Header r) k = []
                then r\<lparr>Header := Header_Set (Header r) k v\<rparr> else r) ck \<noteq> None"
    using Cons.prems by (simp add: Header_Set_def)
  from Cons.IH [OF this] a show ?case
    by (simp add: applyHeaders_Cons)
qed

lemma applyHeaders_in_map:
  "(k, v) \<in> set hs \<Longrightarrow> Header (applyHeaders hs r) (CanonicalMIMEHeaderKey k) \<noteq> None"
proof (induction hs arbitrary: r)
  case Nil
  then show ?case by simp
next
  case (Cons a hs)
  obtain k' v' where a: "a = (k', v')" by (cases a)
  let ?r = "if Header_Get (Header r) k' = []
            then r\<lparr>Header := Header_Set (Header r) k' v'\<rparr> else r"
  show ?case
  proof (cases "(k, v) = (k', v')")
    case True
    then have "Header ?r (CanonicalMIMEHeaderKey k) \<noteq> None"
      by (auto simp: Header_Set_def Header_Get_def split: option.splits list.splits)
    from applyHeaders_stays_in_map [OF this, of hs] a show ?thesis
      by (simp add: applyHeaders_Cons)
  next
    case False
    with Cons.prems a have "(k, v) \<in> set hs" by auto
    from Cons.IH [OF this, of ?r] a show ?thesis
      by (simp add: applyHeaders_Cons)
  qed
qed

lemma logs_emit [simp]: "wire (emit l lvl m fs s) = wire s" "cur (emit l lvl m fs s) = cur s"
  by (simp_all add: emit_def)

lemma RoundTrip_logging_fst:
  "fst (RoundTrip e (LoggingTransport n l debug) s) = fst (RoundTrip e (next n) s)"
  by (simp add: Let_def split: prod.splits)

lemma RoundTrip_logging_state:
  "snd (RoundTrip e (LoggingTransport n l debug) s) =
     (let res = fst (RoundTrip e (next n) s); s1 = snd (RoundTrip e (next n) s)
      in if \<not> debug then s1
         else (let s2 = logRequest e l (cur s1) (case Body (cur s) of None \<Rightarrow> [] | Some b \<Rightarrow> b) s1
               in if snd res = None \<and> fst res \<noteq> None
                  then logResponse e l (the (fst res)) s2 else s2))"
  by (simp add: Let_def split: prod.splits)

text \<open>C8. With the debug flag off the logging link is the next link: it emits nothing,
  whatever the outcome. With the flag on it returns what the next link returns and appends
  to the records of the next link exactly one request record, and after it exactly one
  response record when the next link returned a response and no error, none otherwise.\<close>

theorem logging_link_records:
  "fst (RoundTrip e (LoggingTransport n l debug) s) = fst (RoundTrip e (next n) s)
   \<and> (\<not> debug \<longrightarrow>
        snd (RoundTrip e (LoggingTransport n l debug) s) = snd (RoundTrip e (next n) s))
   \<and> (debug \<longrightarrow>
        (\<exists>rq rs. log_msg rq = ''HTTP Request'' \<and> log_logger rq = l
           \<and> log_msg rs = ''HTTP Response'' \<and> log_logger rs = l
           \<and> logs (snd (RoundTrip e (LoggingTransport n l debug) s)) =
               logs (snd (RoundTrip e (next n) s)) @ [rq]
               @ (if snd (fst (RoundTrip e (next n) s)) = None
                     \<and> fst (fst (RoundTrip e (next n) s)) \<noteq> None
                  then [rs] else [])))"
proof (intro conjI impI)
  show "fst (RoundTrip e (LoggingTransport n l debug) s) = fst (RoundTrip e (next n) s)"
    by (rule RoundTrip_logging_fst)
next
  assume "\<not> debug"
  then show "snd (RoundTrip e (LoggingTransport n l debug) s) = snd (RoundTrip e (next n) s)"
    by (simp add: RoundTrip_logging_state del: RoundTrip.simps)
next
  assume d: debug
  let ?s1 = "snd (RoundTrip e (next n) s)"
  let ?res = "fst (RoundTrip e (next n) s)"
  let ?rq = "\<lparr>log_logger = l, log_level = ''debug'', log_msg = ''HTTP Request'',
     log_fields = [(''method'', Str (Method (cur ?s1))),
         (''url'', Str (URL_String (req_URL (cur ?s1)))),
         (''headers'', Str (DumpRequestOut e (cur ?s1))),
         (''duration'', Str (Since e))]
        @ (if length (case Body (cur s) of None \<Rightarrow> [] | Some b \<Rightarrow> b) > 0
           then [(''body'', Str (case Body (cur s) of None \<Rightarrow> [] | Some b \<Rightarrow> b))] else [])\<rparr>"
  let ?body = "case resp_Body (the (fst ?res)) of None \<Rightarrow> [] | Some b \<Rightarrow> b"
  let ?rs = "\<lparr>log_logger = l, log_level = ''debug'', log_msg = ''HTTP Response'',
     log_fields = [(''status'', Str (Status (the (fst ?res)))),
             (''headers'', Str (DumpResponse e (the (fst ?res))))]
            @ (if length ?body > 0 then [(''body'', Str ?body)] else [])\<rparr>"
  have "logs (snd (RoundTrip e (LoggingTransport n l debug) s)) =
          logs ?s1 @ [?rq] @ (if snd ?res = None \<and> fst ?res \<noteq> None then [?rs] else [])"
    using d by (simp add: RoundTrip_logging_state Let_def logRequest_def logResponse_def emit_def
        del: RoundTrip.simps)
  moreover have "log_msg ?rq = ''HTTP Request''" "log_logger ?rq = l"
    "log_msg ?rs = ''HTTP Response''" "log_logger ?rs = l"
    by simp_all
  ultimately show "\<exists>rq rs. log_msg rq = ''HTTP Request'' \<and> log_logger rq = l
           \<and> log_msg rs = ''HTTP Response'' \<and> log_logger rs = l
           \<and> logs (snd (RoundTrip e (LoggingTransport n l debug) s)) =
               logs (snd (RoundTrip e (next n) s)) @ [rq]
               @ (if snd (fst (RoundTrip e (next n) s)) = None
                     \<and> fst (fst (RoundTrip e (next n) s)) \<noteq> None
                  then [rs] else [])"
    by blast
qed

theorem logging_link_records_witness:
  "map log_msg (logs (snd (RoundTrip (answering 200) (LoggingTransport None (Sink 0) True)
      (world0\<lparr>cur := example_request\<rparr>)))) = [''HTTP Request'', ''HTTP Response'']
   \<and> map log_msg (logs (snd (RoundTrip refusing (LoggingTransport None (Sink 0) True)
      (world0\<lparr>cur := example_request\<rparr>)))) = [''HTTP Request'']
   \<and> logs (snd (RoundTrip (answering 200) (LoggingTransport None (Sink 0) False)
      (world0\<lparr>cur := example_request\<rparr>))) = []"
  using logging_link_records [of "answering 200" None "Sink 0" True "world0\<lparr>cur := example_request\<rparr>"]
    logging_link_records [of refusing None "Sink 0" True "world0\<lparr>cur := example_request\<rparr>"]
    logging_link_records [of "answering 200" None "Sink 0" False "world0\<lparr>cur := example_request\<rparr>"]
  by (auto simp: world0_def answering_def refusing_def)

subsection \<open>The chain of the default client\<close>

lemma wire_logRequest [simp]: "wire (logRequest e l r b s) = wire s"
  by (simp add: logRequest_def)

lemma wire_logResponse [simp]: "wire (logResponse e l r s) = wire s"
  by (simp add: logResponse_def Let_def)

lemma buildTransport_chain:
  "buildTransport cfg =
     HeadersTransport (Some (LoggingTransport (Some DefaultTransport) (Logger cfg) (Debug cfg)))
       (Headers cfg)"
  by (simp add: buildTransport_def)

lemma NewTransport_chain:
  "NewTransport [WithHeadersTransport hs, WithLogging l d] =
     HeadersTransport (Some (LoggingTransport (Some DefaultTransport) l d)) hs"
  by (simp add: NewTransport_def WithHeadersTransport_def WithLogging_def)

lemma RoundTrip_buildTransport_wire:
  "wire (snd (RoundTrip e (buildTransport cfg) s)) = wire s @ [applyHeaders (range_map e (Headers cfg)) (cur s)]"
  by (simp add: buildTransport_chain Let_def split: prod.splits)

lemma RoundTrip_wire_extends: "\<exists>xs. wire (snd (RoundTrip e t s)) = wire s @ xs"
proof (induction e t s rule: RoundTrip.induct)
  case (1 e s)
  then show ?case by simp
next
  case (2 e n hs s)
  then show ?case by simp
next
  case (3 e n l debug s)
  then show ?case
    by (cases debug) (auto simp: Let_def split: prod.splits)
qed

lemma http_Client_send_wire_extends:
  "\<exists>xs. wire (snd (http_Client_send e hc req s)) = wire s @ xs"
proof -
  let ?s = "s\<lparr>cur := http_Client_prepare e hc req s\<rparr>"
  obtain xs where "wire (snd (RoundTrip e (hc_Transport hc) ?s)) = wire ?s @ xs"
    using RoundTrip_wire_extends by blast
  then show ?thesis
    by (auto simp: http_Client_send_def split: prod.splits option.splits)
qed

lemma http_Client_send_wire:
  assumes "hc_Transport hc = buildTransport cfg"
  shows "wire (snd (http_Client_send e hc req s))
           = wire s @ [applyHeaders (range_map e (Headers cfg)) (http_Client_prepare e hc req s)]"
proof -
  let ?s = "s\<lparr>cur := http_Client_prepare e hc req s\<rparr>"
  have "wire (snd (RoundTrip e (buildTransport cfg) ?s))
          = wire s @ [applyHeaders (range_map e (Headers cfg)) (http_Client_prepare e hc req s)]"
    using RoundTrip_buildTransport_wire [of e cfg ?s] by simp
  then show ?thesis
    using assms by (auto simp: http_Client_send_def split: prod.splits option.splits)
qed

text \<open>The requests of a call reach the terminal transport after those sent before, and the
  first of them is the request of the first round trip.\<close>

lemma http_Client_do_wire:
  "\<exists>rest. wire (snd (http_Client_do e hc reqs req s))
            = wire (snd (http_Client_send e hc req s)) @ rest"
proof (induction e hc reqs req s rule: http_Client_do.induct)
  case (1 e hc reqs req s)
  obtain res s' where sd: "http_Client_send e hc req s = (res, s')"
    by (cases "http_Client_send e hc req s")
  show ?case
  proof (cases res)
    case (Inl er)
    then show ?thesis using sd by simp
  next
    case (Inr r)
    show ?thesis
    proof (cases "redirect e (reqs @ [req]) r")
      case NoRedirect
      then show ?thesis using sd Inr by simp
    next
      case (HopFailed er)
      then show ?thesis using sd Inr by simp
    next
      case (NextHop req')
      show ?thesis
      proof (cases "length (reqs @ [req]) \<ge> 10")
        case True
        then show ?thesis using sd Inr NextHop by simp
      next
        case False
        obtain rest where r: "wire (snd (http_Client_do e hc (reqs @ [req]) req' s'))
                                = wire (snd (http_Client_send e hc req' s')) @ rest"
          using "1.IH" [OF sd [symmetric] Inr NextHop] False by auto
        obtain xs where x: "wire (snd (http_Client_send e hc req' s')) = wire s' @ xs"
          using http_Client_send_wire_extends by blast
        have "http_Client_do e hc reqs req s = http_Client_do e hc (reqs @ [req]) req' s'"
          using sd Inr NextHop False by simp
        then show ?thesis
          using r x sd by simp
      qed
    qed
  qed
qed

lemma Doer_Do_default_wire:
  "\<exists>rest. wire (snd (Doer_Do e (createDefaultDoer cfg) req s))
            = wire s @ applyHeaders (range_map e (Headers cfg))
                         (http_Client_prepare e
                            \<lparr>hc_Timeout = Timeout cfg, hc_Transport = buildTransport cfg,
                              hc_Jar = Jar cfg\<rparr> req s) # rest"
proof -
  let ?hc = "\<lparr>hc_Timeout = Timeout cfg, hc_Transport = buildTransport cfg, hc_Jar = Jar cfg\<rparr>"
  obtain rest where "wire (snd (http_Client_do e ?hc [] req s))
                       = wire (snd (http_Client_send e ?hc req s)) @ rest"
    using http_Client_do_wire by blast
  then show ?thesis
    using http_Client_send_wire [of ?hc cfg e req s]
    by (simp add: Doer_Do_def createDefaultDoer_def http_Client_Do_def del: http_Client_do.simps)
qed

text \<open>When the first round trip fails, or its response is not followed, it is the only
  one.\<close>

lemma Doer_Do_default_single:
  assumes "snd (network e (length (wire s))
             (applyHeaders (range_map e (Headers cfg))
                (http_Client_prepare e
                   \<lparr>hc_Timeout = Timeout cfg, hc_Transport = buildTransport cfg, hc_Jar = Jar cfg\<rparr>
                   req s))) \<noteq> None
           \<or> (\<forall>r. redirect e [req] r = NoRedirect)"
  shows "wire (snd (Doer_Do e (createDefaultDoer cfg) req s))
           = wire s @ [applyHeaders (range_map e (Headers cfg))
                         (http_Client_prepare e
                            \<lparr>hc_Timeout = Timeout cfg, hc_Transport = buildTransport cfg,
                              hc_Jar = Jar cfg\<rparr> req s)]"
proof -
  let ?hc = "\<lparr>hc_Timeout = Timeout cfg, hc_Transport = buildTransport cfg, hc_Jar = Jar cfg\<rparr>"
  have w: "wire (snd (http_Client_send e ?hc req s))
           = wire s @ [applyHeaders (range_map e (Headers cfg)) (http_Client_prepare e ?hc req s)]"
    by (rule http_Client_send_wire) simp
  have "snd (http_Client_do e ?hc [] req s) = snd (http_Client_send e ?hc req s)"
  proof (cases "fst (http_Client_send e ?hc req s)")
    case (Inl er)
    then show ?thesis by (simp add: http_Client_do_error del: http_Client_do.simps)
  next
    case (Inr r)
    then have "snd (network e (length (wire s))
             (applyHeaders (range_map e (Headers cfg)) (http_Client_prepare e ?hc req s))) = None"
      using http_Client_send_fst [of ?hc cfg e req s]
      by (auto split: prod.splits option.splits)
    with assms have "redirect e ([] @ [req]) r = NoRedirect"
      by simp
    with Inr show ?thesis by (simp add: http_Client_do_final del: http_Client_do.simps)
  qed
  then show ?thesis
    using w by (simp add: Doer_Do_def createDefaultDoer_def http_Client_Do_def del: http_Client_do.simps)
qed

lemma snd_do_built_request:
  "snd (do url_parse e c ctx method target opts s) =
     (case built_request url_parse e c ctx method target opts of
        Inl err \<Rightarrow> s
      | Inr req \<Rightarrow> snd (Doer_Do e (doer c) req s))"
  by (simp add: do_built_request split: sum.splits prod.splits option.splits)

lemma do_default_wire:
  assumes "built_request url_parse e c ctx method target opts = Inr req"
    and "doer c = createDefaultDoer cfg"
    and "Jar cfg = None" and "User (req_URL req) = None"
    and "snd (network e (length (wire s)) (applyHeaders (range_map e (Headers cfg)) req)) \<noteq> None
         \<or> (\<forall>r. redirect e [req] r = NoRedirect)"
  shows "wire (snd (do url_parse e c ctx method target opts s))
           = wire s @ [applyHeaders (range_map e (Headers cfg)) req]"
proof -
  have p: "http_Client_prepare e
             \<lparr>hc_Timeout = Timeout cfg, hc_Transport = buildTransport cfg, hc_Jar = Jar cfg\<rparr> req s
           = req"
    using assms(3,4) by (simp add: http_Client_prepare_def)
  show ?thesis
    using assms(1,2) Doer_Do_default_single [of e s cfg req] assms(5)
    by (simp add: snd_do_built_request p)
qed

lemma New_default_doer:
  assumes "New opts = ((Some c, er), tr)" and "CustomDoer (config c) = None"
  shows "doer c = createDefaultDoer (config c)"
  using assms by (auto simp: New_def split: prod.splits option.splits)

text \<open>C2. A client built without a custom executor sends its requests through the header
  link, whose next link is the logging link, whose next link is the terminal transport;
  the chain that \<open>NewTransport\<close> builds from the header option followed by the logging
  option is the same. Running the chain is running the logging link on the request the
  header link has worked on, so every configured header is on the request that the logging
  link sees (with a non-empty value when its configured value is not empty), and the
  request record of the logging link dumps that request.\<close>

theorem headers_link_wraps_logging_link:
  assumes "New opts = ((Some c, er), tr)" and "CustomDoer (config c) = None"
  shows "doer c = HTTPClient \<lparr>hc_Timeout = Timeout (config c),
             hc_Transport = HeadersTransport
               (Some (LoggingTransport (Some DefaultTransport) (Logger (config c))
                  (Debug (config c)))) (Headers (config c)),
             hc_Jar = Jar (config c)\<rparr>
       \<and> createDefaultDoer_NewTransport (config c) = doer c
       \<and> RoundTrip e (buildTransport (config c)) s =
           RoundTrip e (LoggingTransport (Some DefaultTransport) (Logger (config c))
                          (Debug (config c)))
             (s\<lparr>cur := applyHeaders (range_map e (Headers (config c))) (cur s)\<rparr>)
       \<and> (\<forall>(k, v) \<in> set (Headers (config c)).
             Header (applyHeaders (range_map e (Headers (config c))) (cur s))
               (CanonicalMIMEHeaderKey k) \<noteq> None
             \<and> (v \<noteq> [] \<longrightarrow>
                  Header_Get (Header (applyHeaders (range_map e (Headers (config c))) (cur s))) k
                    \<noteq> []))
       \<and> (Debug (config c) \<longrightarrow>
            (\<exists>rq \<in> set (logs (snd (RoundTrip e (buildTransport (config c)) s))).
               log_msg rq = ''HTTP Request''
               \<and> map_of (log_fields rq) ''headers''
                   = Some (Str (DumpRequestOut e (applyHeaders (range_map e (Headers (config c))) (cur s))))))"
proof (intro conjI)
  have d: "doer c = createDefaultDoer (config c)"
    using assms by (rule New_default_doer)
  show "doer c = HTTPClient \<lparr>hc_Timeout = Timeout (config c),
             hc_Transport = HeadersTransport
               (Some (LoggingTransport (Some DefaultTransport) (Logger (config c))
                  (Debug (config c)))) (Headers (config c)),
             hc_Jar = Jar (config c)\<rparr>"
    by (simp add: d createDefaultDoer_def buildTransport_chain)
  show "createDefaultDoer_NewTransport (config c) = doer c"
    by (simp add: d createDefaultDoer_def createDefaultDoer_NewTransport_def
        buildTransport_chain NewTransport_chain)
  show "RoundTrip e (buildTransport (config c)) s =
           RoundTrip e (LoggingTransport (Some DefaultTransport) (Logger (config c))
                          (Debug (config c)))
             (s\<lparr>cur := applyHeaders (range_map e (Headers (config c))) (cur s)\<rparr>)"
    by (simp add: buildTransport_chain)
  show "\<forall>(k, v) \<in> set (Headers (config c)).
             Header (applyHeaders (range_map e (Headers (config c))) (cur s))
               (CanonicalMIMEHeaderKey k) \<noteq> None
             \<and> (v \<noteq> [] \<longrightarrow>
                  Header_Get (Header (applyHeaders (range_map e (Headers (config c))) (cur s))) k
                    \<noteq> [])"
  proof -
    have "Header (applyHeaders (range_map e (Headers (config c))) (cur s))
               (CanonicalMIMEHeaderKey k) \<noteq> None
             \<and> (v \<noteq> [] \<longrightarrow>
                  Header_Get (Header (applyHeaders (range_map e (Headers (config c))) (cur s))) k
                    \<noteq> [])"
      if "(k, v) \<in> set (Headers (config c))" for k v
    proof -
      from that have m: "(k, v) \<in> set (range_map e (Headers (config c)))"
        by simp
      show ?thesis
        using applyHeaders_in_map [OF m] applyHeaders_present [OF m] by blast
    qed
    then show ?thesis by blast
  qed
  show "Debug (config c) \<longrightarrow>
            (\<exists>rq \<in> set (logs (snd (RoundTrip e (buildTransport (config c)) s))).
               log_msg rq = ''HTTP Request''
               \<and> map_of (log_fields rq) ''headers''
                   = Some (Str (DumpRequestOut e (applyHeaders (range_map e (Headers (config c))) (cur s)))))"
    by (simp add: buildTransport_chain Let_def logRequest_def logResponse_def emit_def
        split: prod.splits)
qed


lemma New_client_of:
  "New (map (option_of url_Parse) opts)
     = ((Some (client_of opts), None), snd (New (map (option_of url_Parse) opts)))"
  by (simp add: New_def client_of_def Let_def split: prod.splits)

lemma config_client_of:
  "config (client_of opts) = fst (buildConfig (map (option_of url_Parse) opts))"
  by (simp add: New_def client_of_def Let_def split: prod.splits)

lemma config_debug_key:
  "config (client_of [DebugOpt True, HeadersOpt [(''X-Api-Key'', ''abc123'')]])
     = default_config\<lparr>Debug := True,
         Headers := [(''User-Agent'', defaultUserAgent), (''X-Api-Key'', ''abc123'')]\<rparr>"
  by (simp add: config_client_of buildConfig_def WithDebug_def WithHeaders_def maps_Copy_def
      default_config_def)

theorem headers_link_wraps_logging_link_witness:
  "createDefaultDoer_NewTransport
       (config (client_of [DebugOpt True, HeadersOpt [(''X-Api-Key'', ''abc123'')]]))
     = doer (client_of [DebugOpt True, HeadersOpt [(''X-Api-Key'', ''abc123'')]])
   \<and> Header_Get (Header (applyHeaders
         (range_map refusing
           (Headers (config (client_of [DebugOpt True, HeadersOpt [(''X-Api-Key'', ''abc123'')]]))))
         example_request)) ''X-Api-Key'' \<noteq> []"
proof -
  let ?c = "client_of [DebugOpt True, HeadersOpt [(''X-Api-Key'', ''abc123'')]]"
  have nd: "CustomDoer (config ?c) = None"
    by (simp add: config_debug_key default_config_def)
  have m: "(''X-Api-Key'', ''abc123'') \<in> set (Headers (config ?c))"
    by (simp add: config_debug_key)
  show ?thesis
    using headers_link_wraps_logging_link [OF New_client_of nd, of refusing
        "world0\<lparr>cur := example_request\<rparr>"] m
    by (auto dest!: bspec [where x = "(''X-Api-Key'', ''abc123'')"])
qed

subsection \<open>Per-request headers\<close>

lemma setHeaders_Nil [simp]: "setHeaders [] r = r"
  by (simp add: setHeaders_def)

lemma setHeaders_Cons:
  "setHeaders ((k, v) # hs) r = setHeaders hs (r\<lparr>Header := Header_Set (Header r) k v\<rparr>)"
  by (simp add: setHeaders_def)

text \<open>The last entry visited under a canonical name settles the value; when all entries
  under the canonical name of \<open>k\<close> carry the value \<open>v\<close>, that is the value.\<close>

lemma setHeaders_keeps:
  assumes "\<forall>(k', v') \<in> set hs. CanonicalMIMEHeaderKey k' = CanonicalMIMEHeaderKey k \<longrightarrow> v' = v"
    and "Header_Get (Header r) k = v"
  shows "Header_Get (Header (setHeaders hs r)) k = v"
  using assms
proof (induction hs arbitrary: r)
  case Nil
  then show ?case by simp
next
  case (Cons a hs)
  obtain k' v' where a: "a = (k', v')" by (cases a)
  have "Header_Get (Header (r\<lparr>Header := Header_Set (Header r) k' v'\<rparr>)) k = v"
    using Cons.prems a by (auto simp: Header_Get_Set)
  moreover have "\<forall>(k', v') \<in> set hs.
                   CanonicalMIMEHeaderKey k' = CanonicalMIMEHeaderKey k \<longrightarrow> v' = v"
    using Cons.prems(1) by simp
  ultimately show ?case
    using Cons.IH a by (simp add: setHeaders_Cons)
qed

lemma setHeaders_Get:
  assumes "(k, v) \<in> set hs"
    and "\<forall>(k', v') \<in> set hs. CanonicalMIMEHeaderKey k' = CanonicalMIMEHeaderKey k \<longrightarrow> v' = v"
  shows "Header_Get (Header (setHeaders hs r)) k = v"
  using assms
proof (induction hs arbitrary: r)
  case Nil
  then show ?case by simp
next
  case (Cons a hs)
  obtain k' v' where a: "a = (k', v')" by (cases a)
  have rest: "\<forall>(k', v') \<in> set hs.
                CanonicalMIMEHeaderKey k' = CanonicalMIMEHeaderKey k \<longrightarrow> v' = v"
    using Cons.prems(2) by simp
  show ?case
  proof (cases "(k, v) \<in> set hs")
    case True
    from Cons.IH [OF True rest] a show ?thesis
      by (simp add: setHeaders_Cons)
  next
    case False
    with Cons.prems(1) a have "k' = k" "v' = v" by auto
    then have "Header_Get (Header (r\<lparr>Header := Header_Set (Header r) k' v'\<rparr>)) k = v"
      by (simp add: Header_Get_Set)
    from setHeaders_keeps [OF rest this] a show ?thesis
      by (simp add: setHeaders_Cons)
  qed
qed

lemma req_URL_setHeaders [simp]: "req_URL (setHeaders hs r) = req_URL r"
  by (induction hs arbitrary: r) (auto simp: setHeaders_Cons)

lemma built_request_headers:
  assumes "built_request url_parse e c ctx method target (Some rc) = Inr req"
  shows "\<exists>req0. req = setHeaders (range_map e (opt_Headers rc)) req0"
  using assms by (auto simp: built_request_def split: sum.splits)

text \<open>The letters of a name, and the canonical form.\<close>

lemma upper_table: "\<forall>c. is_upper c \<longrightarrow> c \<in> set ''ABCDEFGHIJKLMNOPQRSTUVWXYZ''"
  by code_simp

lemma table_upper:
  "list_all (\<lambda>c. is_upper c \<and> is_lower (to_lower c) \<and> to_upper (to_lower c) = c)
     ''ABCDEFGHIJKLMNOPQRSTUVWXYZ''"
  by code_simp

lemma table_lower: "list_all is_lower ''abcdefghijklmnopqrstuvwxyz''"
  by code_simp

lemma to_upper_to_lower: "is_upper c \<Longrightarrow> to_upper (to_lower c) = c \<and> is_lower (to_lower c)"
  using upper_table table_upper [unfolded list_all_iff] by blast

lemma to_lower_other: "\<not> is_upper c \<Longrightarrow> to_lower c = c"
proof -
  assume n: "\<not> is_upper c"
  have "map_of (zip ''ABCDEFGHIJKLMNOPQRSTUVWXYZ'' ''abcdefghijklmnopqrstuvwxyz'') c = None"
  proof (rule ccontr)
    assume "map_of (zip ''ABCDEFGHIJKLMNOPQRSTUVWXYZ'' ''abcdefghijklmnopqrstuvwxyz'') c \<noteq> None"
    then obtain d where
      "map_of (zip ''ABCDEFGHIJKLMNOPQRSTUVWXYZ'' ''abcdefghijklmnopqrstuvwxyz'') c = Some d"
      by blast
    then have "c \<in> set ''ABCDEFGHIJKLMNOPQRSTUVWXYZ''"
      by (meson map_of_SomeD set_zip_leftD)
    then have "is_upper c"
      using table_upper [unfolded list_all_iff] by blast
    with n show False by simp
  qed
  then show ?thesis
    by (simp only: to_lower_def option.case)
qed

lemma to_upper_other: "\<not> is_lower c \<Longrightarrow> to_upper c = c"
proof -
  assume n: "\<not> is_lower c"
  have "map_of (zip ''abcdefghijklmnopqrstuvwxyz'' ''ABCDEFGHIJKLMNOPQRSTUVWXYZ'') c = None"
  proof (rule ccontr)
    assume "map_of (zip ''abcdefghijklmnopqrstuvwxyz'' ''ABCDEFGHIJKLMNOPQRSTUVWXYZ'') c \<noteq> None"
    then obtain d where
      "map_of (zip ''abcdefghijklmnopqrstuvwxyz'' ''ABCDEFGHIJKLMNOPQRSTUVWXYZ'') c = Some d"
      by blast
    then have "c \<in> set ''abcdefghijklmnopqrstuvwxyz''"
      by (meson map_of_SomeD set_zip_leftD)
    then have "is_lower c"
      using table_lower [unfolded list_all_iff] by blast
    with n show False by simp
  qed
  then show ?thesis
    by (simp only: to_upper_def option.case)
qed

lemma lower_not_upper: "is_lower c \<Longrightarrow> \<not> is_upper c"
  by (simp add: is_lower_def is_upper_def)

text \<open>The letter that the canonical form puts at a position depends on the letter given
  only up to its case.\<close>

lemma canonical_letter:
  "(if up \<and> is_lower c then to_upper c else if \<not> up \<and> is_upper c then to_lower c else c)
     = (if up then to_upper (to_lower c) else to_lower c)"
proof (cases "is_upper c")
  case True
  then have "\<not> is_lower c" using lower_not_upper by blast
  with True show ?thesis by (simp add: to_upper_to_lower)
next
  case False
  then have l: "to_lower c = c" by (rule to_lower_other)
  show ?thesis
    using False by (simp add: l to_upper_other)
qed

lemma canonical_from_fold:
  "map to_lower s = map to_lower t \<Longrightarrow> canonical_from up s = canonical_from up t"
proof (induction s arbitrary: t up)
  case Nil
  then show ?case by simp
next
  case (Cons c s)
  then obtain d t' where t: "t = d # t'" and cd: "to_lower c = to_lower d"
    and r: "map to_lower s = map to_lower t'"
    by (cases t) auto
  have "(if up \<and> is_lower c then to_upper c else if \<not> up \<and> is_upper c then to_lower c else c)
        = (if up \<and> is_lower d then to_upper d else if \<not> up \<and> is_upper d then to_lower d else d)"
    using canonical_letter [of up c] canonical_letter [of up d] cd by presburger
  then show ?case
    using Cons.IH [OF r] by (simp add: t Let_def)
qed

lemma valid_to_lower: "validHeaderFieldByte (to_lower c) = validHeaderFieldByte c"
proof (cases "is_upper c")
  case True
  then show ?thesis
    using to_upper_to_lower [of c] by (simp add: validHeaderFieldByte_def)
next
  case False
  then show ?thesis by (simp add: to_lower_other)
qed

lemma valid_fold:
  "map to_lower s = map to_lower t \<Longrightarrow>
     list_all validHeaderFieldByte s = list_all validHeaderFieldByte t"
proof -
  assume a: "map to_lower s = map to_lower t"
  have "list_all validHeaderFieldByte s = list_all validHeaderFieldByte (map to_lower s)" for s
    by (induction s) (simp_all add: valid_to_lower)
  then show ?thesis using a by metis
qed

text \<open>Names that differ in the case of their letters only have one canonical form, provided
  they consist of token bytes.\<close>

lemma canonical_ignores_case:
  assumes "list_all validHeaderFieldByte k" and "ToLower k' = ToLower k"
  shows "CanonicalMIMEHeaderKey k' = CanonicalMIMEHeaderKey k"
proof -
  from assms(2) have m: "map to_lower k' = map to_lower k"
    by (simp add: ToLower_def)
  then have "list_all validHeaderFieldByte k'"
    using valid_fold assms(1) by blast
  then show ?thesis
    using assms(1) canonical_from_fold [OF m] by (simp add: CanonicalMIMEHeaderKey_def)
qed

text \<open>What \<open>http.Client\<close> adds on its own account leaves a header that has a value as it
  is, except that the cookies of the jar are appended to the \<open>Cookie\<close> header.\<close>

lemma canonical_Cookie: "CanonicalMIMEHeaderKey ''Cookie'' = ''Cookie''"
  by code_simp

lemma AddCookie_other:
  "CanonicalMIMEHeaderKey k \<noteq> ''Cookie'' \<Longrightarrow>
     Header_Get (Header (AddCookie r ck)) k = Header_Get (Header r) k"
  by (simp add: AddCookie_def Let_def Header_Get_Set canonical_Cookie)

lemma foldl_AddCookie_other:
  "CanonicalMIMEHeaderKey k \<noteq> ''Cookie'' \<Longrightarrow>
     Header_Get (Header (foldl AddCookie r cks)) k = Header_Get (Header r) k"
  by (induction cks arbitrary: r) (simp_all add: AddCookie_other)

lemma req_URL_foldl_AddCookie [simp]: "req_URL (foldl AddCookie r cks) = req_URL r"
  by (induction cks arbitrary: r) (simp_all add: AddCookie_def Let_def)

lemma http_Client_prepare_keeps:
  assumes "Header_Get (Header req) k = v" and "v \<noteq> []"
    and "CanonicalMIMEHeaderKey k = ''Cookie'' \<longrightarrow>
           (\<forall>jar. hc_Jar hc = Some jar \<longrightarrow>
              jar_Cookies e jar (length (wire s)) (req_URL req) = [])"
  shows "Header_Get (Header (http_Client_prepare e hc req s)) k = v"
proof -
  define req1 where
    "req1 = (case hc_Jar hc of
               None \<Rightarrow> req
             | Some jar \<Rightarrow> foldl AddCookie req (jar_Cookies e jar (length (wire s)) (req_URL req)))"
  have p: "http_Client_prepare e hc req s =
             (case User (req_URL req1) of
                None \<Rightarrow> req1
              | Some ui \<Rightarrow>
                  if Header_Get (Header req1) ''Authorization'' = []
                    then req1\<lparr>Header := Header_Set (Header req1) ''Authorization''
                                          (''Basic '' @ basicAuth e ui)\<rparr>
                  else req1)"
    by (simp only: http_Client_prepare_def req1_def Let_def)
  have g: "Header_Get (Header req1) k = v"
  proof (cases "hc_Jar hc")
    case None
    then show ?thesis using assms(1) by (simp add: req1_def)
  next
    case (Some jar)
    show ?thesis
    proof (cases "CanonicalMIMEHeaderKey k = ''Cookie''")
      case True
      with assms(3) Some have "jar_Cookies e jar (length (wire s)) (req_URL req) = []"
        by simp
      then show ?thesis using Some assms(1) by (simp add: req1_def)
    next
      case False
      then show ?thesis using Some assms(1) by (simp add: req1_def foldl_AddCookie_other)
    qed
  qed
  show ?thesis
  proof (cases "User (req_URL req1)")
    case None
    then show ?thesis using p g by simp
  next
    case (Some ui)
    show ?thesis
    proof (cases "Header_Get (Header req1) ''Authorization'' = []")
      case True
      have ne: "CanonicalMIMEHeaderKey k \<noteq> CanonicalMIMEHeaderKey ''Authorization''"
      proof
        assume "CanonicalMIMEHeaderKey k = CanonicalMIMEHeaderKey ''Authorization''"
        then have "Header_Get (Header req1) k = Header_Get (Header req1) ''Authorization''"
          by (rule Header_Get_cong)
        with True g assms(2) show False by simp
      qed
      have "Header_Get (Header (req1\<lparr>Header := Header_Set (Header req1) ''Authorization''
                                          (''Basic '' @ basicAuth e ui)\<rparr>)) k = v"
        using ne g by (simp add: Header_Get_Set)
      then show ?thesis
        using Some True by (simp only: p option.case if_True simp_thms)
    next
      case False
      then show ?thesis
        using Some g by (simp only: p option.case if_False simp_thms)
    qed
  qed
qed

text \<open>C6, as amended. Take a client built without a custom executor, a call whose request
  is created, and a per-request header with a non-empty value such that every per-request
  header with the same canonical name carries the same value; for the \<open>Cookie\<close> header,
  let the jar hold no cookie for the URL. Then the first request of the call that reaches
  the terminal transport has the per-request value, whatever the client's default headers
  are and in whatever order the two header maps are visited. It has it under every name
  with the same canonical form, which for a name of token bytes is every spelling that
  differs in the case of letters only. Moreover every request that enters the transport
  chain of the client with that value, such as a later request of the call that
  \<open>http.Client\<close> has copied the header to, reaches the terminal transport with it.\<close>

theorem per_request_header_wins:
  assumes "New opts = ((Some c, er), tr)" and "CustomDoer (config c) = None"
    and "built_request url_parse e c ctx method target (Some rc) = Inr req"
    and "(k, v) \<in> set (opt_Headers rc)" and "v \<noteq> []"
    and "\<forall>(k', v') \<in> set (opt_Headers rc).
           CanonicalMIMEHeaderKey k' = CanonicalMIMEHeaderKey k \<longrightarrow> v' = v"
    and "CanonicalMIMEHeaderKey k = ''Cookie'' \<longrightarrow>
           (\<forall>jar. Jar (config c) = Some jar \<longrightarrow>
              jar_Cookies e jar (length (wire s)) (req_URL req) = [])"
  shows "\<exists>hc r rest. doer c = HTTPClient hc
           \<and> wire (snd (do url_parse e c ctx method target (Some rc) s)) = wire s @ r # rest
           \<and> (\<forall>k'. CanonicalMIMEHeaderKey k' = CanonicalMIMEHeaderKey k
                     \<or> (list_all validHeaderFieldByte k \<and> ToLower k' = ToLower k)
                   \<longrightarrow> Header_Get (Header r) k' = v)
           \<and> (\<forall>r0 s0. Header_Get (Header r0) k = v \<longrightarrow>
                 (\<exists>r1. wire (snd (RoundTrip e (hc_Transport hc) (s0\<lparr>cur := r0\<rparr>))) = wire s0 @ [r1]
                    \<and> (\<forall>k'. CanonicalMIMEHeaderKey k' = CanonicalMIMEHeaderKey k
                              \<or> (list_all validHeaderFieldByte k \<and> ToLower k' = ToLower k)
                            \<longrightarrow> Header_Get (Header r1) k' = v)))"
proof -
  let ?hc = "\<lparr>hc_Timeout = Timeout (config c), hc_Transport = buildTransport (config c),
              hc_Jar = Jar (config c)\<rparr>"
  have d: "doer c = createDefaultDoer (config c)"
    using assms(1,2) by (rule New_default_doer)
  then have hc: "doer c = HTTPClient ?hc"
    by (simp add: createDefaultDoer_def)
  have same: "Header_Get h k' = Header_Get h k"
    if "CanonicalMIMEHeaderKey k' = CanonicalMIMEHeaderKey k
        \<or> (list_all validHeaderFieldByte k \<and> ToLower k' = ToLower k)" for h k'
    using that canonical_ignores_case [of k k'] Header_Get_cong [of k' k h] by blast
  have chain: "Header_Get (Header (applyHeaders (range_map e (Headers (config c))) r0)) k = v"
    if "Header_Get (Header r0) k = v" for r0
    using applyHeaders_keeps [of r0 k "range_map e (Headers (config c))"] that assms(5) by simp
  obtain req0 where req: "req = setHeaders (range_map e (opt_Headers rc)) req0"
    using built_request_headers [OF assms(3)] by blast
  have "(k, v) \<in> set (range_map e (opt_Headers rc))"
    using assms(4) by simp
  moreover have "\<forall>(k', v') \<in> set (range_map e (opt_Headers rc)).
                   CanonicalMIMEHeaderKey k' = CanonicalMIMEHeaderKey k \<longrightarrow> v' = v"
    using assms(6) by simp
  ultimately have g: "Header_Get (Header req) k = v"
    unfolding req by (rule setHeaders_Get)
  let ?p = "http_Client_prepare e ?hc req s"
  let ?r = "applyHeaders (range_map e (Headers (config c))) ?p"
  have "Header_Get (Header ?p) k = v"
    using g assms(5) assms(7) by (intro http_Client_prepare_keeps) simp_all
  then have first: "Header_Get (Header ?r) k = v"
    by (rule chain)
  obtain rest where w: "wire (snd (Doer_Do e (createDefaultDoer (config c)) req s))
                          = wire s @ ?r # rest"
    using Doer_Do_default_wire [of e "config c" req s] by blast
  have w': "wire (snd (do url_parse e c ctx method target (Some rc) s)) = wire s @ ?r # rest"
    using assms(3) d w by (simp add: snd_do_built_request)
  have hop: "\<exists>r1. wire (snd (RoundTrip e (hc_Transport ?hc) (s0\<lparr>cur := r0\<rparr>))) = wire s0 @ [r1]
               \<and> (\<forall>k'. CanonicalMIMEHeaderKey k' = CanonicalMIMEHeaderKey k
                         \<or> (list_all validHeaderFieldByte k \<and> ToLower k' = ToLower k)
                       \<longrightarrow> Header_Get (Header r1) k' = v)"
    if "Header_Get (Header r0) k = v" for r0 s0
  proof -
    have "wire (snd (RoundTrip e (buildTransport (config c)) (s0\<lparr>cur := r0\<rparr>)))
            = wire s0 @ [applyHeaders (range_map e (Headers (config c))) r0]"
      using RoundTrip_buildTransport_wire [of e "config c" "s0\<lparr>cur := r0\<rparr>"] by simp
    moreover have "Header_Get (Header (applyHeaders (range_map e (Headers (config c))) r0)) k' = v"
      if "CanonicalMIMEHeaderKey k' = CanonicalMIMEHeaderKey k
          \<or> (list_all validHeaderFieldByte k \<and> ToLower k' = ToLower k)" for k'
      using same [OF that] chain [OF \<open>Header_Get (Header r0) k = v\<close>] by simp
    ultimately show ?thesis by simp
  qed
  have first': "Header_Get (Header ?r) k' = v"
    if "CanonicalMIMEHeaderKey k' = CanonicalMIMEHeaderKey k
        \<or> (list_all validHeaderFieldByte k \<and> ToLower k' = ToLower k)" for k'
    using same [OF that] first by simp
  have "doer c = HTTPClient ?hc
        \<and> wire (snd (do url_parse e c ctx method target (Some rc) s)) = wire s @ ?r # rest
        \<and> (\<forall>k'. CanonicalMIMEHeaderKey k' = CanonicalMIMEHeaderKey k
                  \<or> (list_all validHeaderFieldByte k \<and> ToLower k' = ToLower k)
                \<longrightarrow> Header_Get (Header ?r) k' = v)
        \<and> (\<forall>r0 s0. Header_Get (Header r0) k = v \<longrightarrow>
              (\<exists>r1. wire (snd (RoundTrip e (hc_Transport ?hc) (s0\<lparr>cur := r0\<rparr>))) = wire s0 @ [r1]
                 \<and> (\<forall>k'. CanonicalMIMEHeaderKey k' = CanonicalMIMEHeaderKey k
                           \<or> (list_all validHeaderFieldByte k \<and> ToLower k' = ToLower k)
                         \<longrightarrow> Header_Get (Header r1) k' = v)))"
  proof (intro conjI allI impI)
    show "doer c = HTTPClient ?hc" by (rule hc)
    show "wire (snd (do url_parse e c ctx method target (Some rc) s)) = wire s @ ?r # rest"
      by (rule w')
    show "Header_Get (Header ?r) k' = v"
      if "CanonicalMIMEHeaderKey k' = CanonicalMIMEHeaderKey k
          \<or> (list_all validHeaderFieldByte k \<and> ToLower k' = ToLower k)" for k'
      using that by (rule first')
    show "\<exists>r1. wire (snd (RoundTrip e (hc_Transport ?hc) (s0\<lparr>cur := r0\<rparr>))) = wire s0 @ [r1]
               \<and> (\<forall>k'. CanonicalMIMEHeaderKey k' = CanonicalMIMEHeaderKey k
                         \<or> (list_all validHeaderFieldByte k \<and> ToLower k' = ToLower k)
                       \<longrightarrow> Header_Get (Header r1) k' = v)"
      if "Header_Get (Header r0) k = v" for r0 s0
      using that by (rule hop)
  qed
  then show ?thesis by blast
qed

lemma built_request_example_headers:
  "built_request url_Parse e c (Some Background) ''GET'' ''https://example.com/x''
       (Some \<lparr>Params = None, opt_Body = None, opt_Headers = hs\<rparr>)
     = Inr (setHeaders (range_map e hs) example_request)"
proof -
  have v: "validMethod ''GET''" by code_simp
  have h: "removeEmptyPort (Host example_url) = ''example.com''" by code_simp
  have h': "example_url\<lparr>Host := ''example.com''\<rparr> = example_url" by code_simp
  have a: "IsAbs example_url" by code_simp
  show ?thesis
    by (simp add: built_request_def resolveURL_def url_Parse_example URL_String_example
        addQueryParams_def NewRequestWithContext_def example_request_def v h h' a)
qed

lemma canonical_user_agent:
  "CanonicalMIMEHeaderKey ''user-agent'' = ''User-Agent''"
  "CanonicalMIMEHeaderKey ''User-Agent'' = ''User-Agent''"
  by code_simp+

lemma config_client_of_Nil: "config (client_of []) = default_config"
  by (simp add: config_client_of buildConfig_def)

theorem per_request_header_wins_witness:
  "Header_Get (Header (hd (wire (snd (do url_Parse (answering 200) (client_of [])
       (Some Background) ''GET'' ''https://example.com/x''
       (Some \<lparr>Params = None, opt_Body = None, opt_Headers = [(''user-agent'', ''mine'')]\<rparr>)
       world0))))) ''User-Agent'' = ''mine''
   \<and> Header_Get (Header (hd (wire (snd (do url_Parse (answering 200) (client_of [])
       (Some Background) ''GET'' ''https://example.com/x''
       (Some \<lparr>Params = None, opt_Body = None, opt_Headers = [(''user-agent'', ''mine'')]\<rparr>)
       world0))))) ''USER-AGENT'' = ''mine''"
proof -
  have nd: "CustomDoer (config (client_of [])) = None"
    by (simp add: config_client_of_Nil default_config_def)
  have n: "New (map (option_of url_Parse) []) = ((Some (client_of []), None), snd (New (map (option_of url_Parse) [])))"
    by (rule New_client_of)
  have t: "list_all validHeaderFieldByte ''user-agent''" "ToLower ''USER-AGENT'' = ToLower ''user-agent''"
    by code_simp+
  have ck: "CanonicalMIMEHeaderKey ''user-agent'' \<noteq> ''Cookie''"
    by (simp add: canonical_user_agent)
  show ?thesis
    using per_request_header_wins [OF n nd built_request_example_headers,
        of "''user-agent''" "''mine''" "[(''user-agent'', ''mine'')]" "answering 200" world0] t ck
    by (auto simp: canonical_user_agent world0_def)
qed

text \<open>C6 as stated fails for a per-request header with an empty value: the header link tests
  for presence by comparing the value with the empty string, so the client's default
  replaces it.\<close>

theorem empty_override_counterexample:
  "Header_Get (Header (last (wire (snd (do url_Parse (answering 200) (client_of [])
       (Some Background) ''GET'' ''https://example.com/x''
       (Some \<lparr>Params = None, opt_Body = None, opt_Headers = [(''User-Agent'', [])]\<rparr>)
       world0))))) ''User-Agent'' = defaultUserAgent
   \<and> defaultUserAgent \<noteq> []"
proof -
  have w: "wire (snd (do url_Parse (answering 200) (client_of [])
       (Some Background) ''GET'' ''https://example.com/x''
       (Some \<lparr>Params = None, opt_Body = None, opt_Headers = [(''User-Agent'', [])]\<rparr>)
       world0)) = wire world0 @ [applyHeaders (range_map (answering 200) (Headers default_config))
           (setHeaders (range_map (answering 200) [(''User-Agent'', [])]) example_request)]"
    by (rule do_default_wire [OF built_request_example_headers doer_client_of_Nil])
      (simp_all add: default_config_def example_request_def example_url_def answering_def
         refusing_def)
  show ?thesis
    by (simp add: w default_config_def applyHeaders_Cons setHeaders_Cons Header_Get_Set
        example_request_def Header_Get_def Header_Set_def canonical_user_agent
        defaultUserAgent_def)
qed

subsection \<open>Retries\<close>

text \<open>C1 does not hold of the code: the retry count is stored in the configuration and in
  the client, and nothing reads it. Whatever count is configured, a request that the
  network refuses reaches the terminal transport once, and the failure is returned.\<close>

theorem retry_attempts_ignored:
  "length (wire (snd (do url_Parse refusing (client_of [RetryAttemptsOpt n])
       (Some Background) ''GET'' ''https://example.com/x'' None world0))) = 1
   \<and> fst (do url_Parse refusing (client_of [RetryAttemptsOpt n])
       (Some Background) ''GET'' ''https://example.com/x'' None world0)
     = Return (None, Some (NewHTTPError None
         (Some (URLError ''Get'' ''https://example.com/x'' (Error ''connection refused'')))
         ''request failed''))"
proof -
  let ?c = "client_of [RetryAttemptsOpt n]"
  have cfg: "CustomDoer (config ?c) = None"
    by (simp add: config_client_of buildConfig_def WithRetryAttempts_def default_config_def)
  have d: "doer ?c = createDefaultDoer (config ?c)"
    using New_client_of cfg by (rule New_default_doer)
  have j: "Jar (config ?c) = None"
    by (simp add: config_client_of buildConfig_def WithRetryAttempts_def default_config_def)
  have u: "User (req_URL example_request) = None"
    by (simp add: example_request_def example_url_def)
  have w: "wire (snd (do url_Parse refusing ?c (Some Background) ''GET''
             ''https://example.com/x'' None world0))
           = wire world0 @ [applyHeaders (range_map refusing (Headers (config ?c))) example_request]"
    using built_request_example d j u by (rule do_default_wire) (simp add: refusing_def)
  have op: "urlErrorOp (Method example_request) = ''Get''" by code_simp
  have sp: "stripPassword (req_URL example_request) = ''https://example.com/x''"
    by code_simp
  have f: "fst (Doer_Do refusing (doer ?c) example_request world0)
                  = (None, Some (URLError ''Get'' ''https://example.com/x''
                       (Error ''connection refused'')))"
    unfolding d
    using Doer_Do_default_error [of refusing world0 "config ?c" example_request None
        "Error ''connection refused''"]
    by (simp add: op sp refusing_def)
  obtain s2 where dd: "Doer_Do refusing (doer ?c) example_request world0
      = ((None, Some (URLError ''Get'' ''https://example.com/x'' (Error ''connection refused''))), s2)"
    using f by (cases "Doer_Do refusing (doer ?c) example_request world0") simp
  have "fst (do url_Parse refusing ?c (Some Background) ''GET'' ''https://example.com/x'' None world0)
     = Return (None, Some (NewHTTPError None
         (Some (URLError ''Get'' ''https://example.com/x'' (Error ''connection refused'')))
         ''request failed''))"
    by (simp add: do_built_request built_request_example dd)
  moreover have "wire world0 = []"
    by (simp add: world0_def)
  ultimately show ?thesis
    by (simp add: w)
qed

theorem retry_attempts_ignored_witness:
  "length (wire (snd (do url_Parse refusing (client_of [RetryAttemptsOpt 3])
       (Some Background) ''GET'' ''https://example.com/x'' None world0))) \<noteq> 4
   \<and> RetryAttempts (config (client_of [RetryAttemptsOpt 3])) = 3"
  using retry_attempts_ignored [of 3]
  by (simp add: config_client_of buildConfig_def WithRetryAttempts_def default_config_def)

subsection \<open>The headers option\<close>

lemma map_of_maps_Copy: "map_of (maps_Copy dst src) = map_of dst ++ map_of (rev src)"
proof (induction src arbitrary: dst)
  case Nil
  then show ?case by (simp add: maps_Copy_def)
next
  case (Cons a src)
  obtain k v where a: "a = (k, v)" by (cases a)
  have "map_of (maps_Copy (AList.update k v dst) src)
          = map_of (AList.update k v dst) ++ map_of (rev src)"
    using Cons.IH .
  then show ?case
    by (simp add: a maps_Copy_def update_conv' map_add_upd_left fun_eq_iff map_add_def
        split: option.splits)
qed

lemma map_of_rev_distinct: "distinct (map fst xs) \<Longrightarrow> map_of (rev xs) = map_of xs"
proof (induction xs)
  case Nil
  then show ?case by simp
next
  case (Cons a xs)
  obtain k v where a: "a = (k, v)" by (cases a)
  from Cons.prems have n: "map_of xs k = None"
    by (simp add: a map_of_eq_None_iff)
  from Cons have ih: "map_of (rev xs) = map_of xs"
    by simp
  have "[k \<mapsto> v] ++ map_of xs = (map_of xs)(k \<mapsto> v)"
    by (rule ext) (simp add: map_add_def n split: option.splits)
  then show ?case
    by (simp add: a ih)
qed

lemma map_add_twice: "m ++ h ++ h = m ++ h"
  by (rule ext) (simp add: map_add_def split: option.splits)

text \<open>C7. Applying the headers option for the same header map twice gives the same header
  mapping as applying it once, and changes nothing else of the draft. The two applications
  may visit the entries of the map in different orders: \<open>H\<close> and \<open>H'\<close> are two orders of
  one map.\<close>

theorem WithHeaders_idempotent:
  assumes "distinct (map fst H)" and "distinct (map fst H')" and "map_of H' = map_of H"
  shows "map_of (Headers (fst (WithHeaders H' (WithHeaders H (cfg, tr)))))
           = map_of (Headers (fst (WithHeaders H (cfg, tr))))
       \<and> (fst (WithHeaders H' (WithHeaders H (cfg, tr))))\<lparr>Headers := []\<rparr>
           = (fst (WithHeaders H (cfg, tr)))\<lparr>Headers := []\<rparr>
       \<and> snd (WithHeaders H' (WithHeaders H (cfg, tr))) = snd (WithHeaders H (cfg, tr))"
proof -
  have e: "H' = [] \<longleftrightarrow> H = []"
    using assms(3) by (metis map_of_eq_empty_iff)
  have r: "map_of (rev H') = map_of H" "map_of (rev H) = map_of H"
    using assms by (simp_all add: map_of_rev_distinct)
  show ?thesis
    using e by (cases "H = []") (simp_all add: WithHeaders_def map_of_maps_Copy r map_add_twice)
qed

theorem WithHeaders_idempotent_witness:
  "map_of (Headers (fst (WithHeaders [(''B'', ''2''), (''A'', ''1'')]
        (WithHeaders [(''A'', ''1''), (''B'', ''2'')] (default_config, [])))))
     = map_of (Headers (fst (WithHeaders [(''A'', ''1''), (''B'', ''2'')] (default_config, []))))"
proof -
  have m: "map_of [(''B'', ''2''), (''A'', ''1'')] = map_of [(''A'', ''1''), (''B'', ''2'')]"
    by (auto simp: fun_eq_iff)
  have d: "distinct (map fst [(''A'', ''1''), (''B'', ''2'')])"
    "distinct (map fst [(''B'', ''2''), (''A'', ''1'')])"
    by simp_all
  show ?thesis
    using WithHeaders_idempotent [OF d m, of default_config "[]"] by simp
qed

subsection \<open>Building a client\<close>

lemmas option_defs = WithTimeout_def WithBaseURL_def WithRetryAttempts_def WithHeaders_def
  WithCookieJar_def WithLogger_def WithDebug_def WithCustomDoer_def

lemma fst_option_of:
  "fst (option_of p oc (cfg, tr)) = fst (option_of p oc (cfg, []))"
  by (cases oc) (simp_all add: option_defs split: sum.splits option.splits)

lemma fst_run_options:
  "fst (foldl (\<lambda>d opt. opt d) (cfg, tr) (map (option_of p) opts))
     = foldl (\<lambda>c oc. fst (option_of p oc (c, []))) cfg opts"
proof (induction opts arbitrary: cfg tr)
  case Nil
  then show ?case by simp
next
  case (Cons oc opts)
  obtain cfg' tr' where s: "option_of p oc (cfg, tr) = (cfg', tr')"
    by (cases "option_of p oc (cfg, tr)")
  have "cfg' = fst (option_of p oc (cfg, []))"
    using fst_option_of [of p oc cfg tr] s by simp
  then show ?case
    using Cons.IH [of cfg' tr'] s by simp
qed

lemma invalid_option_discarded:
  "\<not> valid_option p oc \<Longrightarrow> fst (option_of p oc (cfg, [])) = cfg"
  by (cases oc)
    (auto simp: valid_option_def option_defs normalizeBaseURL_def split: sum.splits option.splits)

lemma run_valid_options:
  "foldl (\<lambda>c oc. fst (option_of p oc (c, []))) cfg (filter (valid_option p) opts)
     = foldl (\<lambda>c oc. fst (option_of p oc (c, []))) cfg opts"
  by (induction opts arbitrary: cfg) (simp_all add: invalid_option_discarded)

lemma Timeout_kept:
  "(\<forall>d. TimeoutOpt d \<in> set opts \<longrightarrow> d \<le> 0) \<Longrightarrow>
     Timeout (foldl (\<lambda>c oc. fst (option_of p oc (c, []))) cfg opts) = Timeout cfg"
proof (induction opts arbitrary: cfg)
  case Nil
  then show ?case by simp
next
  case (Cons oc opts)
  have "Timeout (fst (option_of p oc (cfg, []))) = Timeout cfg"
    using Cons.prems by (cases oc) (auto simp: option_defs split: sum.splits option.splits)
  then show ?case
    using Cons by simp
qed

lemma RetryAttempts_kept:
  "(\<forall>n. RetryAttemptsOpt n \<in> set opts \<longrightarrow> n < 0) \<Longrightarrow>
     RetryAttempts (foldl (\<lambda>c oc. fst (option_of p oc (c, []))) cfg opts) = RetryAttempts cfg"
proof (induction opts arbitrary: cfg)
  case Nil
  then show ?case by simp
next
  case (Cons oc opts)
  have "RetryAttempts (fst (option_of p oc (cfg, []))) = RetryAttempts cfg"
    using Cons.prems by (cases oc) (auto simp: option_defs split: sum.splits option.splits)
  then show ?case
    using Cons by simp
qed

lemma BaseURL_kept:
  "(\<forall>b. BaseURLOpt b \<in> set opts \<longrightarrow>
       b = [] \<or> (case p b of Inl er \<Rightarrow> True | Inr u \<Rightarrow> \<not> IsAbs u)) \<Longrightarrow>
     BaseURL (foldl (\<lambda>c oc. fst (option_of p oc (c, []))) cfg opts) = BaseURL cfg"
proof (induction opts arbitrary: cfg)
  case Nil
  then show ?case by simp
next
  case (Cons oc opts)
  have "BaseURL (fst (option_of p oc (cfg, []))) = BaseURL cfg"
  proof (cases oc)
    case (BaseURLOpt b)
    with Cons.prems have "b = [] \<or> (case p b of Inl er \<Rightarrow> True | Inr u \<Rightarrow> \<not> IsAbs u)"
      by simp
    then show ?thesis
      by (auto simp: BaseURLOpt WithBaseURL_def normalizeBaseURL_def split: sum.splits)
  qed (simp_all add: option_defs split: option.splits)
  then show ?case
    using Cons by simp
qed

lemma CustomDoer_kept:
  "(\<forall>d. CustomDoerOpt d \<in> set opts \<longrightarrow> d = None) \<Longrightarrow>
     CustomDoer (foldl (\<lambda>c oc. fst (option_of p oc (c, []))) cfg opts) = CustomDoer cfg"
proof (induction opts arbitrary: cfg)
  case Nil
  then show ?case by simp
next
  case (Cons oc opts)
  have "CustomDoer (fst (option_of p oc (cfg, []))) = CustomDoer cfg"
    using Cons.prems by (cases oc) (auto simp: option_defs split: sum.splits option.splits)
  then show ?case
    using Cons by simp
qed

lemma Logger_kept:
  "(\<forall>l. LoggerOpt l \<in> set opts \<longrightarrow> l = None) \<Longrightarrow>
     Logger (foldl (\<lambda>c oc. fst (option_of p oc (c, []))) cfg opts) = Logger cfg"
proof (induction opts arbitrary: cfg)
  case Nil
  then show ?case by simp
next
  case (Cons oc opts)
  have "Logger (fst (option_of p oc (cfg, []))) = Logger cfg"
    using Cons.prems by (cases oc) (auto simp: option_defs split: sum.splits option.splits)
  then show ?case
    using Cons by simp
qed

lemma Headers_kept:
  "(\<forall>h. HeadersOpt h \<in> set opts \<longrightarrow> h = []) \<Longrightarrow>
     Headers (foldl (\<lambda>c oc. fst (option_of p oc (c, []))) cfg opts) = Headers cfg"
proof (induction opts arbitrary: cfg)
  case Nil
  then show ?case by simp
next
  case (Cons oc opts)
  have "Headers (fst (option_of p oc (cfg, []))) = Headers cfg"
    using Cons.prems by (cases oc) (auto simp: option_defs split: sum.splits option.splits)
  then show ?case
    using Cons by simp
qed

text \<open>C9. Whatever options are given, \<open>New\<close> returns a client and no error. An option
  value that the constructors do not accept is discarded: the client is the one built from
  the accepted options alone. The client holds the configuration built from the options,
  and its base URL and logger are the configuration's. A field for which no accepted value
  was given has its default: a timeout of ten seconds, three retry attempts, no base URL
  (in particular when every base URL given is empty, does not parse, or parses to a URL
  that is not absolute), the no-op logger, the default \<open>User-Agent\<close> as the only
  header, and the \<open>http.Client\<close> with the configured timeout, transport chain and jar as
  the executor.\<close>

theorem New_never_fails:
  "\<exists>c. fst (New (map (option_of url_parse) opts)) = (Some c, None)
     \<and> fst (New (map (option_of url_parse) (filter (valid_option url_parse) opts)))
         = (Some c, None)
     \<and> config c = fst (buildConfig (map (option_of url_parse) opts))
     \<and> baseURL c = BaseURL (config c)
     \<and> logger c = Logger (config c)
     \<and> ((\<forall>d. TimeoutOpt d \<in> set opts \<longrightarrow> d \<le> 0) \<longrightarrow> Timeout (config c) = 10 * 1000000000)
     \<and> ((\<forall>n. RetryAttemptsOpt n \<in> set opts \<longrightarrow> n < 0) \<longrightarrow> RetryAttempts (config c) = 3)
     \<and> ((\<forall>b. BaseURLOpt b \<in> set opts \<longrightarrow>
               b = [] \<or> (case url_parse b of Inl er \<Rightarrow> True | Inr u \<Rightarrow> \<not> IsAbs u))
          \<longrightarrow> baseURL c = None \<and> BaseURL (config c) = None)
     \<and> ((\<forall>l. LoggerOpt l \<in> set opts \<longrightarrow> l = None)
          \<longrightarrow> logger c = NoOp \<and> Logger (config c) = NoOp)
     \<and> ((\<forall>h. HeadersOpt h \<in> set opts \<longrightarrow> h = [])
          \<longrightarrow> Headers (config c) = [(''User-Agent'', defaultUserAgent)])
     \<and> ((\<forall>d. CustomDoerOpt d \<in> set opts \<longrightarrow> d = None)
          \<longrightarrow> doer c = HTTPClient \<lparr>hc_Timeout = Timeout (config c),
                                     hc_Transport = buildTransport (config c),
                                     hc_Jar = Jar (config c)\<rparr>)"
proof -
  let ?run = "\<lambda>os. foldl (\<lambda>c oc. fst (option_of url_parse oc (c, []))) default_config os"
  let ?cfg = "?run opts"
  let ?d = "case CustomDoer ?cfg of Some d' \<Rightarrow> d' | None \<Rightarrow> createDefaultDoer ?cfg"
  let ?c = "\<lparr>doer = ?d, baseURL = BaseURL ?cfg, logger = Logger ?cfg, config = ?cfg\<rparr>"
  have b: "fst (buildConfig (map (option_of url_parse) os)) = ?run os" for os
    by (simp add: buildConfig_def fst_run_options)
  have n: "fst (New (map (option_of url_parse) os))
             = (Some \<lparr>doer = (case CustomDoer (?run os) of
                                  Some d' \<Rightarrow> d' | None \<Rightarrow> createDefaultDoer (?run os)),
                      baseURL = BaseURL (?run os), logger = Logger (?run os),
                      config = ?run os\<rparr>, None)" for os
  proof -
    obtain cfg tr where bc: "buildConfig (map (option_of url_parse) os) = (cfg, tr)"
      by (cases "buildConfig (map (option_of url_parse) os)")
    then have "cfg = ?run os"
      using b [of os] by simp
    then show ?thesis
      using bc by (simp add: New_def Let_def)
  qed
  have v: "?run (filter (valid_option url_parse) opts) = ?cfg"
    by (rule run_valid_options)
  have 1: "fst (New (map (option_of url_parse) opts)) = (Some ?c, None)"
    by (rule n)
  have 2: "fst (New (map (option_of url_parse) (filter (valid_option url_parse) opts)))
             = (Some ?c, None)"
    by (simp only: n v)
  have 3: "config ?c = fst (buildConfig (map (option_of url_parse) opts))"
    by (simp add: b)
  have 4: "baseURL ?c = BaseURL (config ?c)" "logger ?c = Logger (config ?c)"
    by simp_all
  have 5: "(\<forall>d. TimeoutOpt d \<in> set opts \<longrightarrow> d \<le> 0) \<longrightarrow> Timeout (config ?c) = 10 * 1000000000"
    by (simp add: Timeout_kept default_config_def defaultTimeout_def)
  have 6: "(\<forall>n. RetryAttemptsOpt n \<in> set opts \<longrightarrow> n < 0) \<longrightarrow> RetryAttempts (config ?c) = 3"
    by (simp add: RetryAttempts_kept default_config_def)
  have 7: "(\<forall>b. BaseURLOpt b \<in> set opts \<longrightarrow>
               b = [] \<or> (case url_parse b of Inl er \<Rightarrow> True | Inr u \<Rightarrow> \<not> IsAbs u))
          \<longrightarrow> baseURL ?c = None \<and> BaseURL (config ?c) = None"
    by (simp add: BaseURL_kept default_config_def)
  have 8: "(\<forall>l. LoggerOpt l \<in> set opts \<longrightarrow> l = None)
          \<longrightarrow> logger ?c = NoOp \<and> Logger (config ?c) = NoOp"
    by (simp add: Logger_kept default_config_def)
  have 9: "(\<forall>h. HeadersOpt h \<in> set opts \<longrightarrow> h = [])
          \<longrightarrow> Headers (config ?c) = [(''User-Agent'', defaultUserAgent)]"
    by (simp add: Headers_kept default_config_def)
  have 10: "(\<forall>d. CustomDoerOpt d \<in> set opts \<longrightarrow> d = None)
          \<longrightarrow> doer ?c = HTTPClient \<lparr>hc_Timeout = Timeout (config ?c),
                                     hc_Transport = buildTransport (config ?c),
                                     hc_Jar = Jar (config ?c)\<rparr>"
    by (simp add: CustomDoer_kept default_config_def createDefaultDoer_def)
  show ?thesis
    using 1 2 3 4 5 6 7 8 9 10 by blast
qed

lemma invalid_base_URLs:
  "case url_Parse ''example.com/api'' of Inl er \<Rightarrow> True | Inr u \<Rightarrow> \<not> IsAbs u"
  "case url_Parse '':%invalid'' of Inl er \<Rightarrow> True | Inr u \<Rightarrow> \<not> IsAbs u"
  "case url_Parse ''example.com/api'' of Inl er \<Rightarrow> False | Inr u \<Rightarrow> True"
  "case url_Parse '':%invalid'' of Inl er \<Rightarrow> True | Inr u \<Rightarrow> False"
  by code_simp+

theorem New_never_fails_witness:
  "snd (fst (New (map (option_of url_Parse)
       [BaseURLOpt ''example.com/api'', BaseURLOpt '':%invalid'', TimeoutOpt 0,
        RetryAttemptsOpt (- 1), LoggerOpt None, HeadersOpt [], CustomDoerOpt None]))) = None
   \<and> Timeout (config (client_of
       [BaseURLOpt ''example.com/api'', BaseURLOpt '':%invalid'', TimeoutOpt 0,
        RetryAttemptsOpt (- 1), LoggerOpt None, HeadersOpt [], CustomDoerOpt None]))
       = 10 * 1000000000
   \<and> RetryAttempts (config (client_of
       [BaseURLOpt ''example.com/api'', BaseURLOpt '':%invalid'', TimeoutOpt 0,
        RetryAttemptsOpt (- 1), LoggerOpt None, HeadersOpt [], CustomDoerOpt None])) = 3
   \<and> baseURL (client_of
       [BaseURLOpt ''example.com/api'', BaseURLOpt '':%invalid'', TimeoutOpt 0,
        RetryAttemptsOpt (- 1), LoggerOpt None, HeadersOpt [], CustomDoerOpt None]) = None
   \<and> logger (client_of
       [BaseURLOpt ''example.com/api'', BaseURLOpt '':%invalid'', TimeoutOpt 0,
        RetryAttemptsOpt (- 1), LoggerOpt None, HeadersOpt [], CustomDoerOpt None]) = NoOp
   \<and> Headers (config (client_of
       [BaseURLOpt ''example.com/api'', BaseURLOpt '':%invalid'', TimeoutOpt 0,
        RetryAttemptsOpt (- 1), LoggerOpt None, HeadersOpt [], CustomDoerOpt None]))
       = [(''User-Agent'', defaultUserAgent)]
   \<and> hc_Timeout (case doer (client_of
       [BaseURLOpt ''example.com/api'', BaseURLOpt '':%invalid'', TimeoutOpt 0,
        RetryAttemptsOpt (- 1), LoggerOpt None, HeadersOpt [], CustomDoerOpt None]) of
         HTTPClient hc \<Rightarrow> hc) = 10 * 1000000000"
proof -
  let ?opts = "[BaseURLOpt ''example.com/api'', BaseURLOpt '':%invalid'', TimeoutOpt 0,
        RetryAttemptsOpt (- 1), LoggerOpt None, HeadersOpt [], CustomDoerOpt None]"
  obtain c where c: "fst (New (map (option_of url_Parse) ?opts)) = (Some c, None)"
    and t: "(\<forall>d. TimeoutOpt d \<in> set ?opts \<longrightarrow> d \<le> 0) \<longrightarrow> Timeout (config c) = 10 * 1000000000"
    and r: "(\<forall>n. RetryAttemptsOpt n \<in> set ?opts \<longrightarrow> n < 0) \<longrightarrow> RetryAttempts (config c) = 3"
    and b: "(\<forall>b. BaseURLOpt b \<in> set ?opts \<longrightarrow>
               b = [] \<or> (case url_Parse b of Inl er \<Rightarrow> True | Inr u \<Rightarrow> \<not> IsAbs u))
          \<longrightarrow> baseURL c = None \<and> BaseURL (config c) = None"
    and l: "(\<forall>l. LoggerOpt l \<in> set ?opts \<longrightarrow> l = None)
          \<longrightarrow> logger c = NoOp \<and> Logger (config c) = NoOp"
    and h: "(\<forall>h. HeadersOpt h \<in> set ?opts \<longrightarrow> h = [])
          \<longrightarrow> Headers (config c) = [(''User-Agent'', defaultUserAgent)]"
    and d: "(\<forall>d. CustomDoerOpt d \<in> set ?opts \<longrightarrow> d = None)
          \<longrightarrow> doer c = HTTPClient \<lparr>hc_Timeout = Timeout (config c),
                                     hc_Transport = buildTransport (config c),
                                     hc_Jar = Jar (config c)\<rparr>"
    using New_never_fails [of url_Parse ?opts] by blast
  have cc: "client_of ?opts = c"
    using c by (simp only: client_of_def fst_conv option.sel)
  have "snd (fst (New (map (option_of url_Parse) ?opts))) = None"
    using c by (simp only: snd_conv)
  moreover have "Timeout (config c) = 10 * 1000000000"
    using t by simp
  moreover have "RetryAttempts (config c) = 3"
    using r by simp
  moreover have "baseURL c = None"
    using b invalid_base_URLs(1,2) by auto
  moreover have "logger c = NoOp"
    using l by simp
  moreover have "Headers (config c) = [(''User-Agent'', defaultUserAgent)]"
    using h by simp
  moreover have "doer c = HTTPClient \<lparr>hc_Timeout = Timeout (config c),
                                     hc_Transport = buildTransport (config c),
                                     hc_Jar = Jar (config c)\<rparr>"
    using d by simp
  ultimately show ?thesis
    by (simp only: cc) simp
qed

subsection \<open>Resolving targets\<close>

text \<open>C3 does not hold of the code. \<open>/users\<close> is a reference with an absolute path, and
  \<open>ResolveReference\<close> replaces the path of the base by it: the \<open>/api\<close> of the base is lost,
  in whichever order the two query parameters are visited.\<close>

theorem resolveURL_drops_base_path:
  "(case resolveURL url_Parse e (client_of [BaseURLOpt ''https://example.com/api'']) ''/users''
           (Some [(''page'', [''1'']), (''limit'', [''10''])]) of
      Inl er \<Rightarrow> [] | Inr u \<Rightarrow> URL_String u) = ''https://example.com/users?limit=10&page=1''"
proof -
  let ?base = "URL_zero\<lparr>Scheme := ''https'', Host := ''example.com'', Path := ''/api''\<rparr>"
  let ?u = "URL_zero\<lparr>Scheme := ''https'', Host := ''example.com'', Path := ''/users''\<rparr>"
  let ?add = "\<lambda>ps. URL_String (?u\<lparr>RawQuery := Values_Encode
      (foldl (\<lambda>q (k, vals). foldl (\<lambda>q v. Values_Add q k v) q vals) (URL_Query ?u) ps)\<rparr>)"
  have "case baseURL (client_of [BaseURLOpt ''https://example.com/api'']) of
          None \<Rightarrow> False | Some u \<Rightarrow> u = ?base"
    by code_simp
  then have b: "baseURL (client_of [BaseURLOpt ''https://example.com/api'']) = Some ?base"
    by (simp split: option.splits)
  have r: "ResolveReference ?base (URL_zero\<lparr>Path := ''/users''\<rparr>) = ?u"
    by code_simp
  have a: "\<not> IsAbs (URL_zero\<lparr>Path := ''/users''\<rparr>)"
    by code_simp
  have o: "?add [(''page'', [''1'']), (''limit'', [''10''])] = ''https://example.com/users?limit=10&page=1''"
    "?add [(''limit'', [''10'']), (''page'', [''1''])] = ''https://example.com/users?limit=10&page=1''"
    by code_simp+
  show ?thesis
    using o a
    by (simp add: resolveURL_def url_Parse_users b r addQueryParams_def range_map_pair
        del: foldl_Cons)
qed

theorem resolveURL_drops_base_path_witness:
  "(case resolveURL url_Parse refusing (client_of [BaseURLOpt ''https://example.com/api''])
           ''/users'' (Some [(''page'', [''1'']), (''limit'', [''10''])]) of
      Inl er \<Rightarrow> [] | Inr u \<Rightarrow> URL_String u) \<noteq> ''https://example.com/api/users?limit=10&page=1''"
  using resolveURL_drops_base_path [of refusing] by simp

text \<open>C10 as stated fails for a base URL whose path has a dot element: resolving the empty
  reference removes it.\<close>

theorem dot_segment_base_counterexample:
  "map_option URL_String (baseURL (client_of [BaseURLOpt ''https://example.com/a/../api'']))
     = Some ''https://example.com/a/../api''
   \<and> (case resolveURL url_Parse refusing (client_of [BaseURLOpt ''https://example.com/a/../api'']) [] None of
        Inl er \<Rightarrow> [] | Inr u \<Rightarrow> URL_String u) = ''https://example.com/api''"
  by code_simp

lemma shouldEscape_percent: "shouldEscape (CHR ''%'') encodePath"
  by code_simp

lemma pieces_not_Nil: "pieces c xs \<noteq> []"
  by (induction xs) (auto split: list.splits)

lemma concat_pieces: "concat (map ((#) c) (pieces c xs)) = c # xs"
proof (induction xs)
  case Nil
  then show ?case by simp
next
  case (Cons x xs)
  obtain p ps where p: "pieces c xs = p # ps"
    using pieces_not_Nil [of c xs] by (cases "pieces c xs") auto
  with Cons show ?case by auto
qed

lemma foldl_resolve_elem_plain:
  "''.'' \<notin> set qs \<Longrightarrow> ''..'' \<notin> set qs \<Longrightarrow>
     foldl resolve_elem (d, False) qs = (d @ concat (map ((#) (CHR ''/'')) qs), False)"
proof (induction qs arbitrary: d)
  case Nil
  then show ?case by simp
next
  case (Cons q qs)
  from Cons.prems have q: "q \<noteq> ''.''" "q \<noteq> ''..''" and qs: "''.'' \<notin> set qs" "''..'' \<notin> set qs"
    by auto
  have "resolve_elem (d, False) q = (d @ CHR ''/'' # q, False)"
    using q by (simp add: resolve_elem_def)
  then show ?case
    using Cons.IH [OF qs, of "d @ CHR ''/'' # q"] by simp
qed

lemma resolvePath_plain:
  assumes "p = [] \<or> hd p = CHR ''/''"
    and "''.'' \<notin> set (pieces (CHR ''/'') p)" and "''..'' \<notin> set (pieces (CHR ''/'') p)"
  shows "resolvePath p [] = p"
proof (cases p)
  case Nil
  then show ?thesis by (simp add: resolvePath_def)
next
  case (Cons x rest)
  with assms(1) have p: "p = CHR ''/'' # rest" by simp
  let ?qs = "pieces (CHR ''/'') rest"
  have el: "pieces (CHR ''/'') p = [] # ?qs"
    by (simp add: p)
  have nd: "''.'' \<notin> set ?qs" "''..'' \<notin> set ?qs"
    using assms(2,3) el by auto
  have "resolve_elem (''/'', True) [] = (''/'', False)"
    by (simp add: resolve_elem_def)
  then have f: "foldl resolve_elem (''/'', True) (pieces (CHR ''/'') p)
                  = (CHR ''/'' # CHR ''/'' # rest, False)"
    using foldl_resolve_elem_plain [OF nd, of "''/''"] by (simp add: el concat_pieces)
  have l: "last (pieces (CHR ''/'') p) \<noteq> ''.''" "last (pieces (CHR ''/'') p) \<noteq> ''..''"
    using assms(2,3) last_in_set [OF pieces_not_Nil, of "CHR ''/''" p] by metis+
  show ?thesis
    using l by (simp add: resolvePath_def f Let_def) (simp add: p)
qed



lemma URL_zero_fields:
  "Scheme URL_zero = []" "Host URL_zero = []" "User URL_zero = None" "Opaque URL_zero = []"
  "Path URL_zero = []" "RawPath URL_zero = []" "\<not> ForceQuery URL_zero"
  "RawQuery URL_zero = []" "Fragment URL_zero = []"
  by (simp_all add: URL_zero_def)

lemma EscapedPath_zero: "EscapedPath URL_zero = []"
  by (simp add: EscapedPath_def URL_zero_fields escape_def)

lemma hex16: "list_all (\<lambda>n. ishex (upperhex n) \<and> unhex (upperhex n) = n) [0..<16]"
  by code_simp

lemma hex_digit: "n < 16 \<Longrightarrow> ishex (upperhex n) \<and> unhex (upperhex n) = n"
  using hex16 [unfolded list_all_iff] by simp

lemma byte_lt: "byte c < 256"
proof -
  have "byte c mod 256 = byte c" unfolding byte_def by simp
  then show ?thesis by (metis mod_less_divisor zero_less_numeral)
qed

lemma char_of_byte: "char_of (byte c div 16 * 16 + byte c mod 16) = c"
  by (simp add: byte_def)

text \<open>Unescaping undoes escaping, in the mode of paths.\<close>

lemma unescape_escape_byte:
  "unescape (escape_byte encodePath c @ rest) encodePath =
     (case unescape rest encodePath of Inl er \<Rightarrow> Inl er | Inr r \<Rightarrow> Inr (c # r))"
proof (cases "shouldEscape c encodePath")
  case True
  have hi: "byte c div 16 < 16" using byte_lt [of c] by simp
  have lo: "byte c mod 16 < 16" by simp
  have x: "ishex (upperhex (byte c div 16))" "ishex (upperhex (byte c mod 16))"
    using hex_digit [OF hi] hex_digit [OF lo] by blast+
  have "unhex (upperhex (byte c div 16)) * 16 + unhex (upperhex (byte c mod 16))
          = byte c div 16 * 16 + byte c mod 16"
    using hex_digit [OF hi] hex_digit [OF lo] by presburger
  then have y: "char_of (unhex (upperhex (byte c div 16)) * 16
                  + unhex (upperhex (byte c mod 16))) = c"
    by (simp only: char_of_byte)
  show ?thesis
    using True x by (simp add: escape_byte_def y split: sum.splits)
next
  case False
  then have "c \<noteq> CHR ''%''" using shouldEscape_percent by auto
  with False show ?thesis
    by (simp add: escape_byte_def)
qed

lemma unescape_escape: "unescape (escape s encodePath) encodePath = Inr s"
proof (induction s)
  case Nil
  then show ?case by (simp add: escape_def)
next
  case (Cons c s)
  have "escape (c # s) encodePath = escape_byte encodePath c @ escape s encodePath"
    by (simp add: escape_def)
  then show ?case
    using Cons by (simp only: unescape_escape_byte) simp
qed

lemma escape_star: "escape ''*'' encodePath = ''%2A''"
  by code_simp

lemma setPath_unescaped:
  "unescape p encodePath = Inr path \<Longrightarrow>
     setPath u p = Inr (u\<lparr>Path := path, RawPath := (if p = escape path encodePath then [] else p)\<rparr>)"
  by (simp add: setPath_def)

text \<open>Setting the path of a URL from the escaped path of \<open>b\<close> gives the path of \<open>b\<close>, and
  the same escaped path, as long as the escaped path is empty or starts at the root.\<close>

lemma setPath_EscapedPath:
  assumes "EscapedPath b = [] \<or> hd (EscapedPath b) = CHR ''/''"
  shows "\<exists>rp. setPath u (EscapedPath b) = Inr (u\<lparr>Path := Path b, RawPath := rp\<rparr>)
           \<and> EscapedPath (u\<lparr>Path := Path b, RawPath := rp\<rparr>) = EscapedPath b"
proof (cases "RawPath b \<noteq> [] \<and> validEncoded (RawPath b) encodePath
         \<and> (case unescape (RawPath b) encodePath of Inl e \<Rightarrow> False | Inr p \<Rightarrow> p = Path b)")
  case True
  then have ep: "EscapedPath b = RawPath b"
    by (simp add: EscapedPath_def)
  from True have un: "unescape (RawPath b) encodePath = Inr (Path b)"
    by (simp split: sum.splits)
  show ?thesis
  proof (cases "RawPath b = escape (Path b) encodePath")
    case eq: True
    have ns: "Path b \<noteq> ''*''"
    proof
      assume "Path b = ''*''"
      then have "EscapedPath b = ''%2A''"
        using ep eq escape_star by simp
      with assms show False by simp
    qed
    have "setPath u (EscapedPath b) = Inr (u\<lparr>Path := Path b, RawPath := []\<rparr>)"
      unfolding ep using setPath_unescaped [OF un, of u] eq by simp
    moreover have "EscapedPath (u\<lparr>Path := Path b, RawPath := []\<rparr>) = EscapedPath b"
      using ns eq by (simp add: EscapedPath_def [of "u\<lparr>Path := Path b, RawPath := []\<rparr>"] ep)
    ultimately show ?thesis by blast
  next
    case ne: False
    have "setPath u (EscapedPath b) = Inr (u\<lparr>Path := Path b, RawPath := RawPath b\<rparr>)"
      unfolding ep using setPath_unescaped [OF un, of u] ne by simp
    moreover have "EscapedPath (u\<lparr>Path := Path b, RawPath := RawPath b\<rparr>) = EscapedPath b"
      using True ep
      by (simp add: EscapedPath_def [of "u\<lparr>Path := Path b, RawPath := RawPath b\<rparr>"] un)
    ultimately show ?thesis by blast
  qed
next
  case False
  then have ep0: "EscapedPath b = (if Path b = ''*'' then ''*'' else escape (Path b) encodePath)"
    unfolding EscapedPath_def by (simp only: if_False)
  have ns: "Path b \<noteq> ''*''"
  proof
    assume "Path b = ''*''"
    then have "EscapedPath b = ''*''" using ep0 by simp
    with assms show False by simp
  qed
  then have ep: "EscapedPath b = escape (Path b) encodePath"
    using ep0 by simp
  have "setPath u (EscapedPath b) = Inr (u\<lparr>Path := Path b, RawPath := []\<rparr>)"
    unfolding ep using setPath_unescaped [OF unescape_escape, of u "Path b"] by simp
  moreover have "EscapedPath (u\<lparr>Path := Path b, RawPath := []\<rparr>) = EscapedPath b"
    using ns by (simp add: EscapedPath_def [of "u\<lparr>Path := Path b, RawPath := []\<rparr>"] ep)
  ultimately show ?thesis by blast
qed

text \<open>What \<open>String\<close> prints depends on the escaped path, not on how the path is stored, and
  on the two flags only where they show.\<close>

lemma URL_String_cong:
  assumes "Scheme a = Scheme b" and "Opaque a = Opaque b"
    and "Opaque b = [] \<longrightarrow> User a = User b"
    and "Opaque b = [] \<longrightarrow> Host a = Host b" and "Opaque b = [] \<longrightarrow> Path a = Path b"
    and "Opaque b = [] \<longrightarrow> EscapedPath a = EscapedPath b"
    and "RawQuery a = RawQuery b" and "Fragment a = Fragment b" and "RawFragment a = RawFragment b"
    and "(ForceQuery a \<or> RawQuery a \<noteq> []) = (ForceQuery b \<or> RawQuery b \<noteq> [])"
    and "Opaque b = [] \<longrightarrow> OmitHost a = OmitHost b
           \<or> \<not> (Scheme b \<noteq> [] \<and> Host b = [] \<and> User b = None \<and> Path b \<noteq> [])"
  shows "URL_String a = URL_String b"
proof -
  have f: "EscapedFragment a = EscapedFragment b"
    unfolding EscapedFragment_def assms(8) assms(9) by (rule refl)
  show ?thesis
  proof (cases "Opaque b = []")
    case False
    then show ?thesis
      using assms(1,2,7,8,10) f by (simp add: URL_String_def Let_def)
  next
    case True
    let ?auth = "\<lambda>u. (if Scheme u \<noteq> [] \<or> Host u \<noteq> [] \<or> User u \<noteq> None then
                            (if OmitHost u \<and> Host u = [] \<and> User u = None then []
                             else (if Host u \<noteq> [] \<or> Path u \<noteq> [] \<or> User u \<noteq> None
                                   then ''//'' else [])
                                  @ (case User u of Some ui \<Rightarrow> ui @ ''@'' | None \<Rightarrow> [])
                                  @ (if Host u \<noteq> [] then escape (Host u) encodeHost else []))
                          else [])"
    have p: "Path a = Path b" "EscapedPath a = EscapedPath b"
      using True assms(5,6) by simp_all
    have o: "OmitHost a = OmitHost b
           \<or> \<not> (Scheme b \<noteq> [] \<and> Host b = [] \<and> User b = None \<and> Path b \<noteq> [])"
      using True assms(11) by simp
    have uh: "User a = User b" "Host a = Host b"
      using True assms(3,4) by simp_all
    have au: "?auth a = ?auth b"
      using o assms(1) uh p(1) by auto
    have "URL_String u =
           (let s1 = (if Scheme u \<noteq> [] then Scheme u @ '':'' else []);
                a = s1 @ ?auth u;
                path = EscapedPath u;
                b = a @ (if path \<noteq> [] \<and> hd path \<noteq> CHR ''/'' \<and> Host u \<noteq> [] then ''/'' else []);
                c = b @ (if b = [] \<and> CHR '':'' \<in> set (fst (Cut path (CHR ''/''))) then ''./'' else [])
            in c @ path @ (if ForceQuery u \<or> RawQuery u \<noteq> [] then ''?'' @ RawQuery u else [])
                 @ (if Fragment u \<noteq> [] then ''#'' @ EscapedFragment u else []))"
      if "Opaque u = []" for u
      using that by (simp add: URL_String_def Let_def)
    from this [of a] this [of b] show ?thesis
      using True assms(1,2,7,8,10) uh(2) p(2) f au by (simp only: Let_def)
  qed
qed

lemma ResolveReference_zero_opaque:
  assumes "Opaque b \<noteq> []"
  shows "ResolveReference b URL_zero =
           URL_zero\<lparr>Scheme := Scheme b, RawQuery := RawQuery b, Fragment := Fragment b,
                     RawFragment := RawFragment b, Opaque := Opaque b, User := None, Host := [],
                     Path := []\<rparr>"
  unfolding ResolveReference_def Let_def
  by (simp only: URL_zero_fields assms simp_thms if_True if_False)

lemma ResolveReference_zero_hier:
  assumes "Opaque b = []"
  shows "ResolveReference b URL_zero =
           setPath_ignore
             (URL_zero\<lparr>Scheme := Scheme b, RawQuery := RawQuery b, Fragment := Fragment b,
                       RawFragment := RawFragment b, Host := Host b, User := User b\<rparr>)
             (resolvePath (EscapedPath b) [])"
  unfolding ResolveReference_def Let_def
  by (simp only: URL_zero_fields assms EscapedPath_zero simp_thms if_True if_False)

lemma foldl_no_values:
  "\<forall>(k, vs) \<in> set ps. vs = [] \<Longrightarrow>
     foldl (\<lambda>q (k, vals). foldl (\<lambda>q v. Values_Add q k v) q vals) q0 ps = q0"
  by (induction ps arbitrary: q0) auto

lemma addQueryParams_no_values:
  assumes "\<forall>(k, vs) \<in> set ps. vs = []"
  shows "addQueryParams e u (Some ps) = u\<lparr>RawQuery := Values_Encode (URL_Query u)\<rparr>"
proof -
  have "\<forall>(k, vs) \<in> set (range_map e ps). vs = []"
    using assms by simp
  then show ?thesis
    by (simp add: addQueryParams_def foldl_no_values del: set_range_map)
qed

text \<open>C10, as amended. Take a client with a base URL, and the empty target with no query
  parameters: none given, or a map whose keys hold no value, when the query of the base is
  in the form \<open>Encode\<close> gives. Let the base URL have no bare trailing \<open>?\<close>; when it is
  not opaque, let its escaped path be empty or start at the root and have no \<open>.\<close> or
  \<open>..\<close> element, and let it not be of the form \<open>scheme:/path\<close>, without an authority. Then
  the target resolves without error to a URL that prints as the base URL does, with the
  scheme, the opaque part, the query and the fragment of the base, and, when the base is
  not opaque, its user information, host and path.\<close>

theorem empty_target_resolves_to_base:
  assumes "url_parse [] = Inr URL_zero"
    and "baseURL c = Some b"
    and "queryParams = None
         \<or> (\<exists>ps. queryParams = Some ps \<and> (\<forall>(k, vs) \<in> set ps. vs = [])
                \<and> Values_Encode (URL_Query b) = RawQuery b)"
    and "ForceQuery b \<longrightarrow> RawQuery b \<noteq> []"
    and "Opaque b = [] \<longrightarrow>
           (EscapedPath b = [] \<or> hd (EscapedPath b) = CHR ''/'')
           \<and> ''.'' \<notin> set (pieces (CHR ''/'') (EscapedPath b))
           \<and> ''..'' \<notin> set (pieces (CHR ''/'') (EscapedPath b))
           \<and> \<not> (OmitHost b \<and> Scheme b \<noteq> [] \<and> Host b = [] \<and> User b = None \<and> Path b \<noteq> [])"
  shows "\<exists>u. resolveURL url_parse e c [] queryParams = Inr u
           \<and> URL_String u = URL_String b
           \<and> Scheme u = Scheme b \<and> Opaque u = Opaque b \<and> RawQuery u = RawQuery b
           \<and> Fragment u = Fragment b
           \<and> (Opaque b = [] \<longrightarrow> User u = User b \<and> Host u = Host b \<and> Path u = Path b)"
proof -
  define r where "r = ResolveReference b URL_zero"
  have na: "\<not> IsAbs URL_zero"
    by (simp add: IsAbs_def URL_zero_fields)
  have common: "Scheme r = Scheme b \<and> Opaque r = Opaque b \<and> RawQuery r = RawQuery b
      \<and> Fragment r = Fragment b \<and> RawFragment r = RawFragment b \<and> \<not> ForceQuery r"
    and hier: "Opaque b = [] \<longrightarrow> User r = User b \<and> Host r = Host b \<and> Path r = Path b
      \<and> EscapedPath r = EscapedPath b \<and> \<not> OmitHost r"
  proof -
    show "Scheme r = Scheme b \<and> Opaque r = Opaque b \<and> RawQuery r = RawQuery b
      \<and> Fragment r = Fragment b \<and> RawFragment r = RawFragment b \<and> \<not> ForceQuery r"
    proof (cases "Opaque b = []")
      case False
      then have "r = URL_zero\<lparr>Scheme := Scheme b, RawQuery := RawQuery b, Fragment := Fragment b,
                     RawFragment := RawFragment b, Opaque := Opaque b, User := None, Host := [],
                     Path := []\<rparr>"
        unfolding r_def by (rule ResolveReference_zero_opaque)
      then show ?thesis
        by (simp add: URL_zero_def)
    next
      case True
      let ?X = "URL_zero\<lparr>Scheme := Scheme b, RawQuery := RawQuery b, Fragment := Fragment b,
                       RawFragment := RawFragment b, Host := Host b, User := User b\<rparr>"
      from True assms(5) have rt: "EscapedPath b = [] \<or> hd (EscapedPath b) = CHR ''/''"
        and nd: "''.'' \<notin> set (pieces (CHR ''/'') (EscapedPath b))"
          "''..'' \<notin> set (pieces (CHR ''/'') (EscapedPath b))"
        by simp_all
      have rp: "resolvePath (EscapedPath b) [] = EscapedPath b"
        using rt nd by (rule resolvePath_plain)
      obtain p where sp: "setPath ?X (EscapedPath b) = Inr (?X\<lparr>Path := Path b, RawPath := p\<rparr>)"
        using setPath_EscapedPath [OF rt, of ?X] by blast
      have "r = ?X\<lparr>Path := Path b, RawPath := p\<rparr>"
        unfolding r_def
        by (simp only: ResolveReference_zero_hier [OF True] rp setPath_ignore_def sp sum.case)
      then show ?thesis
        using True by (simp add: URL_zero_def)
    qed
    show "Opaque b = [] \<longrightarrow> User r = User b \<and> Host r = Host b \<and> Path r = Path b
      \<and> EscapedPath r = EscapedPath b \<and> \<not> OmitHost r"
    proof
      assume True: "Opaque b = []"
      let ?X = "URL_zero\<lparr>Scheme := Scheme b, RawQuery := RawQuery b, Fragment := Fragment b,
                       RawFragment := RawFragment b, Host := Host b, User := User b\<rparr>"
      from True assms(5) have rt: "EscapedPath b = [] \<or> hd (EscapedPath b) = CHR ''/''"
        and nd: "''.'' \<notin> set (pieces (CHR ''/'') (EscapedPath b))"
          "''..'' \<notin> set (pieces (CHR ''/'') (EscapedPath b))"
        by simp_all
      have rp: "resolvePath (EscapedPath b) [] = EscapedPath b"
        using rt nd by (rule resolvePath_plain)
      obtain p where sp: "setPath ?X (EscapedPath b) = Inr (?X\<lparr>Path := Path b, RawPath := p\<rparr>)"
        and ep: "EscapedPath (?X\<lparr>Path := Path b, RawPath := p\<rparr>) = EscapedPath b"
        using setPath_EscapedPath [OF rt, of ?X] by blast
      have "r = ?X\<lparr>Path := Path b, RawPath := p\<rparr>"
        unfolding r_def
        by (simp only: ResolveReference_zero_hier [OF True] rp setPath_ignore_def sp sum.case)
      then show "User r = User b \<and> Host r = Host b \<and> Path r = Path b
          \<and> EscapedPath r = EscapedPath b \<and> \<not> OmitHost r"
        using ep by (simp add: URL_zero_def)
    qed
  qed
  have q: "addQueryParams e r queryParams = r"
  proof (cases queryParams)
    case None
    then show ?thesis by (simp add: addQueryParams_def)
  next
    case (Some ps)
    with assms(3) have nv: "\<forall>(k, vs) \<in> set ps. vs = []"
      and en: "Values_Encode (URL_Query b) = RawQuery b"
      by simp_all
    have "URL_Query r = URL_Query b"
      using common by (simp add: URL_Query_def)
    then have "addQueryParams e r (Some ps) = r\<lparr>RawQuery := RawQuery b\<rparr>"
      using en by (simp add: addQueryParams_no_values [OF nv])
    also have "\<dots> = r"
      using common by simp
    finally show ?thesis
      using Some by simp
  qed
  have res: "resolveURL url_parse e c [] queryParams = Inr r"
    using na q by (simp add: resolveURL_def assms(1,2) r_def)
  have str: "URL_String r = URL_String b"
  proof (rule URL_String_cong)
    show "(ForceQuery r \<or> RawQuery r \<noteq> []) = (ForceQuery b \<or> RawQuery b \<noteq> [])"
      using common assms(4) by auto
    show "Opaque b = [] \<longrightarrow> OmitHost r = OmitHost b
            \<or> \<not> (Scheme b \<noteq> [] \<and> Host b = [] \<and> User b = None \<and> Path b \<noteq> [])"
      using hier assms(5) by auto
  qed (use common hier in simp_all)
  show ?thesis
    using res str common hier by simp
qed

lemma url_Parse_empty: "url_Parse [] = Inr URL_zero"
proof -
  have "case url_Parse [] of Inl e \<Rightarrow> False | Inr u \<Rightarrow> u = URL_zero"
    by code_simp
  then show ?thesis by (simp split: sum.splits)
qed

theorem empty_target_resolves_to_base_witness:
  "(case resolveURL url_Parse refusing (client_of [BaseURLOpt ''https://example.com/caf%C3%A9/v1/''])
           [] None of
      Inl er \<Rightarrow> [] | Inr u \<Rightarrow> URL_String u) = ''https://example.com/caf%C3%A9/v1''
   \<and> (case resolveURL url_Parse refusing (client_of [BaseURLOpt ''mailto:x?a=1'']) []
           (Some [(''k'', [])]) of
      Inl er \<Rightarrow> [] | Inr u \<Rightarrow> URL_String u) = ''mailto:x?a=1''"
proof -
  let ?c1 = "client_of [BaseURLOpt ''https://example.com/caf%C3%A9/v1/'']"
  let ?c2 = "client_of [BaseURLOpt ''mailto:x?a=1'']"
  have "case baseURL ?c1 of
          None \<Rightarrow> False
        | Some b \<Rightarrow>
            URL_String b = ''https://example.com/caf%C3%A9/v1''
            \<and> (ForceQuery b \<longrightarrow> RawQuery b \<noteq> [])
            \<and> (Opaque b = [] \<longrightarrow>
                 (EscapedPath b = [] \<or> hd (EscapedPath b) = CHR ''/'')
                 \<and> ''.'' \<notin> set (pieces (CHR ''/'') (EscapedPath b))
                 \<and> ''..'' \<notin> set (pieces (CHR ''/'') (EscapedPath b))
                 \<and> \<not> (OmitHost b \<and> Scheme b \<noteq> [] \<and> Host b = [] \<and> User b = None
                        \<and> Path b \<noteq> []))"
    by code_simp
  then obtain b1 where b1: "baseURL ?c1 = Some b1"
    and s1: "URL_String b1 = ''https://example.com/caf%C3%A9/v1''"
    and f1: "ForceQuery b1 \<longrightarrow> RawQuery b1 \<noteq> []"
    and h1: "Opaque b1 = [] \<longrightarrow>
                 (EscapedPath b1 = [] \<or> hd (EscapedPath b1) = CHR ''/'')
                 \<and> ''.'' \<notin> set (pieces (CHR ''/'') (EscapedPath b1))
                 \<and> ''..'' \<notin> set (pieces (CHR ''/'') (EscapedPath b1))
                 \<and> \<not> (OmitHost b1 \<and> Scheme b1 \<noteq> [] \<and> Host b1 = [] \<and> User b1 = None
                        \<and> Path b1 \<noteq> [])"
    by (auto split: option.splits)
  have "case baseURL ?c2 of
          None \<Rightarrow> False
        | Some b \<Rightarrow>
            URL_String b = ''mailto:x?a=1''
            \<and> Values_Encode (URL_Query b) = RawQuery b
            \<and> (ForceQuery b \<longrightarrow> RawQuery b \<noteq> [])
            \<and> Opaque b \<noteq> []"
    by code_simp
  then obtain b2 where b2: "baseURL ?c2 = Some b2"
    and s2: "URL_String b2 = ''mailto:x?a=1''"
    and e2: "Values_Encode (URL_Query b2) = RawQuery b2"
    and f2: "ForceQuery b2 \<longrightarrow> RawQuery b2 \<noteq> []"
    and o2: "Opaque b2 \<noteq> []"
    by (auto split: option.splits)
  have q1: "(None :: Values option) = None
         \<or> (\<exists>ps. (None :: Values option) = Some ps \<and> (\<forall>(k, vs) \<in> set ps. vs = [])
                \<and> Values_Encode (URL_Query b1) = RawQuery b1)"
    by simp
  have q2: "Some [(''k'', [])] = None
         \<or> (\<exists>ps. Some [(''k'', [])] = Some ps \<and> (\<forall>(k, vs) \<in> set ps. vs = [])
                \<and> Values_Encode (URL_Query b2) = RawQuery b2)"
    using e2 by simp
  have h2: "Opaque b2 = [] \<longrightarrow>
                 (EscapedPath b2 = [] \<or> hd (EscapedPath b2) = CHR ''/'')
                 \<and> ''.'' \<notin> set (pieces (CHR ''/'') (EscapedPath b2))
                 \<and> ''..'' \<notin> set (pieces (CHR ''/'') (EscapedPath b2))
                 \<and> \<not> (OmitHost b2 \<and> Scheme b2 \<noteq> [] \<and> Host b2 = [] \<and> User b2 = None
                        \<and> Path b2 \<noteq> [])"
    using o2 by simp
  show ?thesis
    using empty_target_resolves_to_base [of url_Parse ?c1 b1 None refusing,
        OF url_Parse_empty b1 q1 f1 h1]
      empty_target_resolves_to_base [of url_Parse ?c2 b2 "Some [(''k'', [])]" refusing,
        OF url_Parse_empty b2 q2 f2 h2]
    by (auto simp: s1 s2)
qed

text \<open>The other conditions of the amended statement are needed as well: a bare trailing
  \<open>?\<close> is lost, an omitted authority comes back as an empty one, a path that does not
  start at the root (which no parsed absolute URL has) gets a leading slash, and an empty
  map of query parameters makes the query of the base be encoded anew, with its keys
  sorted.\<close>

lemma bare_question_mark_base:
  "map_option URL_String (baseURL (client_of [BaseURLOpt ''https://example.com/api?'']))
     = Some ''https://example.com/api?''
   \<and> (case resolveURL url_Parse refusing (client_of [BaseURLOpt ''https://example.com/api?''])
             [] None of
        Inl er \<Rightarrow> [] | Inr u \<Rightarrow> URL_String u) = ''https://example.com/api''"
  by code_simp

lemma omitted_authority_base:
  "map_option URL_String (baseURL (client_of [BaseURLOpt ''foo:/x'']))
     = Some ''foo:/x''
   \<and> (case resolveURL url_Parse refusing (client_of [BaseURLOpt ''foo:/x'']) [] None of
        Inl er \<Rightarrow> [] | Inr u \<Rightarrow> URL_String u) = ''foo:///x''"
  by code_simp

lemma relative_path_base:
  "(case resolveURL url_Parse refusing
           ((client_of [])\<lparr>baseURL := Some (URL_zero\<lparr>Scheme := ''https'', Host := ''example.com'',
                                                    Path := ''api''\<rparr>)\<rparr>) [] None of
      Inl er \<Rightarrow> [] | Inr u \<Rightarrow> Path u) = ''/api''"
  by code_simp

lemma unsorted_query_base:
  "map_option URL_String (baseURL (client_of [BaseURLOpt ''https://example.com/api?b=1&a=2'']))
     = Some ''https://example.com/api?b=1&a=2''
   \<and> (case resolveURL url_Parse refusing (client_of [BaseURLOpt ''https://example.com/api?b=1&a=2''])
             [] (Some []) of
        Inl er \<Rightarrow> [] | Inr u \<Rightarrow> URL_String u) = ''https://example.com/api?a=2&b=1''"
  by code_simp

end
